theory Spec2Isabelle
  imports Main "HOL-Library.AList"
begin

section \<open>JavaScript primitives used by the media sources\<close>

text \<open>
  Strings are lists of 8-bit characters.  A JavaScript number that the sources use as an
  offset, a limit or a count is an integer; the model uses \<open>int\<close>, which agrees with
  the IEEE doubles of JavaScript on every integer of magnitude below \<open>2^53\<close>.
  \<open>parseInt\<close> yields an integer or \<open>NaN\<close>: its result is an \<open>int option\<close>, where
  \<open>None\<close> is \<open>NaN\<close>.
\<close>

definition truthy :: "string option \<Rightarrow> bool" where
  \<comment> \<open>truthiness of a \<open>string | null | undefined\<close>: absent and the empty string are falsy\<close>
  "truthy s = (case s of None \<Rightarrow> False | Some t \<Rightarrow> t \<noteq> [])"

definition is_digit :: "char \<Rightarrow> bool" where
  \<comment> \<open>the class \<open>\d\<close> of a JavaScript regular expression: ASCII 0 to 9\<close>
  "is_digit c = (48 \<le> (of_char c :: nat) \<and> (of_char c :: nat) \<le> 57)"

definition digit_val :: "char \<Rightarrow> int" where
  "digit_val c = int (of_char c) - 48"

definition is_js_space :: "char \<Rightarrow> bool" where
  \<comment> \<open>white space and line terminators among the 8-bit characters:
      TAB, LF, VT, FF, CR, SP, NBSP\<close>
  "is_js_space c = ((of_char c :: nat) \<in> {9, 10, 11, 12, 13, 32, 160})"

definition js_trim :: "string \<Rightarrow> string" where
  \<comment> \<open>\<open>String.prototype.trim\<close>\<close>
  "js_trim s = rev (dropWhile is_js_space (rev (dropWhile is_js_space s)))"

fun js_split :: "char \<Rightarrow> string \<Rightarrow> string list" where
  \<comment> \<open>\<open>s.split(sep)\<close> for a one-character separator; \<open>''''.split(':')\<close> is \<open>['''']\<close>\<close>
  "js_split sep [] = [[]]"
| "js_split sep (c # cs) =
     (if c = sep then [] # js_split sep cs
      else (case js_split sep cs of
              [] \<Rightarrow> [[c]]
            | p # ps \<Rightarrow> (c # p) # ps))"

definition dec_value :: "string \<Rightarrow> int" where
  \<comment> \<open>the value of a string of decimal digits\<close>
  "dec_value ds = foldl (\<lambda>a c. 10 * a + digit_val c) 0 ds"

definition js_parseInt :: "string \<Rightarrow> int option" where
  \<comment> \<open>\<open>parseInt(s, 10)\<close>: leading white space is skipped, then an optional sign, then the
      longest prefix of decimal digits; no digit gives \<open>NaN\<close>\<close>
  "js_parseInt s =
     (let s1 = dropWhile is_js_space s;
          sign = (case s1 of [] \<Rightarrow> 1 | c # r \<Rightarrow> if c = CHR ''-'' then - 1 else 1);
          s2 = (case s1 of [] \<Rightarrow> []
                | c # r \<Rightarrow> if c = CHR ''-'' \<or> c = CHR ''+'' then r else s1);
          ds = takeWhile is_digit s2
      in if ds = [] then None else Some (sign * dec_value ds))"

text \<open>
  A duration is a JavaScript number computed from \<open>Number(s)\<close> of text fields.  The
  model tracks it exactly where it is an integer of magnitude below \<open>2^53\<close> (where
  doubles are exact), and where it is \<open>NaN\<close> because the text holds a character that no
  numeric literal contains.  Any other text (a sign, a fraction, an exponent, a radix
  prefix, \<open>Infinity\<close>, or a malformed mix of their characters) and any larger integer
  gives some number, possibly \<open>NaN\<close>, that the model does not evaluate: \<open>Unevaluated\<close>.
\<close>

datatype jsnum = Num int | NaN | Unevaluated

definition js_int :: "int \<Rightarrow> jsnum" where
  \<comment> \<open>an integer result, tracked while doubles represent it exactly\<close>
  "js_int n = (if - (2 ^ 53) < n \<and> n < 2 ^ 53 then Num n else Unevaluated)"

definition numeric_chars :: "string" where
  \<comment> \<open>every character that occurs in some \<open>StrNumericLiteral\<close>\<close>
  "numeric_chars = ''0123456789+-.eEInfityxXoObBaAcCdDfF''"

definition js_Number :: "string \<Rightarrow> jsnum" where
  "js_Number s =
     (let t = js_trim s
      in if t = [] then Num 0
         else if list_all is_digit t then js_int (dec_value t)
         else if list_all (\<lambda>c. c \<in> set numeric_chars) t then Unevaluated
         else NaN)"

fun js_add :: "jsnum \<Rightarrow> jsnum \<Rightarrow> jsnum" where
  "js_add NaN _ = NaN"
| "js_add _ NaN = NaN"
| "js_add (Num a) (Num b) = js_int (a + b)"
| "js_add _ _ = Unevaluated"

fun js_mul :: "jsnum \<Rightarrow> jsnum \<Rightarrow> jsnum" where
  "js_mul NaN _ = NaN"
| "js_mul _ NaN = NaN"
| "js_mul (Num a) (Num b) = js_int (a * b)"
| "js_mul _ _ = Unevaluated"

section \<open>PodcastSource: duration parsing\<close>

definition parseDuration :: "string \<Rightarrow> jsnum" where
  "parseDuration raw =
     (let trimmed = js_trim raw
      in if trimmed \<noteq> [] \<and> list_all is_digit trimmed
         then (case js_parseInt trimmed of None \<Rightarrow> NaN | Some n \<Rightarrow> js_int n)
         else
           (let parts = map js_Number (js_split (CHR '':'') trimmed)
            in if length parts = 3
               then js_add (js_add (js_mul (parts ! 0) (Num 3600)) (js_mul (parts ! 1) (Num 60)))
                      (parts ! 2)
               else if length parts = 2
               then js_add (js_mul (parts ! 0) (Num 60)) (parts ! 1)
               else Num 0))"

section \<open>Array and string helpers of the listing operations\<close>

definition js_slice :: "'a list \<Rightarrow> int option \<Rightarrow> int option \<Rightarrow> 'a list" where
  \<comment> \<open>\<open>xs.slice(start, end)\<close>: \<open>NaN\<close> counts as 0, a negative bound counts from the end,
      both bounds are clamped to the length\<close>
  "js_slice xs start end =
     (let len = int (length xs);
          rs = (case start of None \<Rightarrow> 0 | Some i \<Rightarrow> i);
          k = (if rs < 0 then max (len + rs) 0 else min rs len);
          re = (case end of None \<Rightarrow> 0 | Some i \<Rightarrow> i);
          fin = (if re < 0 then max (len + re) 0 else min re len)
      in take (nat (fin - k)) (drop (nat k) xs))"

definition digit_char :: "nat \<Rightarrow> char" where
  "digit_char n = char_of (48 + n)"

fun string_of_nat :: "nat \<Rightarrow> string" where
  "string_of_nat n =
     (if n < 10 then [digit_char n] else string_of_nat (n div 10) @ [digit_char (n mod 10)])"

declare string_of_nat.simps [simp del]

definition js_String :: "int \<Rightarrow> string" where
  \<comment> \<open>\<open>String(n)\<close> for an integer\<close>
  "js_String i = (if i < 0 then CHR ''-'' # string_of_nat (nat (- i)) else string_of_nat (nat i))"

section \<open>The media types (src/types/media.ts)\<close>

datatype MediaSourceType = Spotify | YouTube | Podcast

datatype MediaContentType = Track | Album | Playlist | Video | Channel | Episode | Feed

record MediaItem =
  item_id :: string
  item_source :: MediaSourceType
  item_title :: string
  item_sourceId :: string
  item_thumbnail :: "string option"
  item_duration :: "jsnum option"
  item_artist :: "string option"
  item_publishedAt :: "string option"

record MediaCollection =
  coll_id :: string
  coll_source :: MediaSourceType
  coll_title :: string
  coll_description :: "string option"
  coll_thumbnail :: "string option"
  coll_contentType :: MediaContentType
  coll_itemCount :: "int option"

record FetchMediaOptions =
  limit :: "int option"
  cursor :: "string option"

record 'a PaginatedResult =
  items :: "'a list"
  nextCursor :: "string option"
  total :: "int option"

datatype error =
    NetworkError
  | FetchFailed nat string
  | InvalidRss
  | InvalidDate
  | UnsupportedOperation string
  | NotAuthenticated
  | ApiError nat string
  | ChannelNotFound string

section \<open>PodcastSource\<close>

record PodcastEpisode =
  guid :: string
  ep_title :: string
  ep_description :: "string option"
  audioUrl :: string
  ep_imageUrl :: "string option"
  ep_publishedAt :: "string option"
  ep_duration :: "jsnum option"

record PodcastFeed =
  feed_url :: string
  feed_title :: string
  feed_description :: "string option"
  feed_imageUrl :: "string option"
  feed_episodes :: "PodcastEpisode list"

text \<open>
  The XML document is seen through the DOM queries that \<open>parseRssFeed\<close> makes: each field
  below is the result of one query, absent when the query finds no element (or, for
  \<open>enclosure_url\<close>, no \<open>url\<close> attribute).
\<close>

record rss_item =
  enclosure_url :: "string option"
  guid_text :: "string option"
  title_text :: "string option"
  description_text :: "string option"
  pubDate_text :: "string option"
  href_attr :: "string option"
  itunes_duration_text :: "string option"
  plain_duration_text :: "string option"

record rss_channel =
  ch_title_text :: "string option"
  ch_description_text :: "string option"
  ch_image_url_text :: "string option"
  ch_href_attr :: "string option"
  ch_items :: "rss_item list"

record http_response =
  ok :: bool
  status :: nat
  statusText :: string
  body :: string

text \<open>
  The platform functions that the source calls: \<open>fetch\<close> (\<open>None\<close> when the request
  itself fails), \<open>encodeURIComponent\<close>, \<open>DOMParser.parseFromString\<close> followed by
  \<open>querySelector('channel')\<close>, and \<open>new Date(s).toISOString()\<close> (\<open>None\<close> when the date is
  invalid and \<open>toISOString\<close> throws).
\<close>

record platform =
  fetch :: "string \<Rightarrow> http_response option"
  encodeURIComponent :: "string \<Rightarrow> string"
  parseFromString :: "string \<Rightarrow> rss_channel option"
  toISOString :: "string \<Rightarrow> string option"

record PodcastState =
  feeds :: "(string \<times> PodcastFeed) list"
  corsProxyUrl :: "string option"

text \<open>
  \<open>feeds\<close> is a JavaScript \<open>Map\<close>, which keeps insertion order: an association list,
  where \<open>map_of\<close> is \<open>get\<close>, \<open>AList.update\<close> is \<open>set\<close> (in place for a known key, at the
  end for a new one) and \<open>map snd\<close> is \<open>values\<close>.
\<close>

definition getElementByTagNameNS_duration :: "rss_item \<Rightarrow> string option" where
  \<comment> \<open>the text of \<open>itunes:duration\<close> if there is one, else of \<open>duration\<close>\<close>
  "getElementByTagNameNS_duration item =
     (case itunes_duration_text item of
        Some t \<Rightarrow> Some t
      | None \<Rightarrow> plain_duration_text item)"

definition parseRssItem :: "platform \<Rightarrow> rss_item \<Rightarrow> error + PodcastEpisode option" where
  \<comment> \<open>the body of the \<open>forEach\<close> over the items: \<open>Inr None\<close> is an item that is skipped\<close>
  "parseRssItem pf item =
     (case enclosure_url item of
        None \<Rightarrow> Inr None
      | Some url \<Rightarrow>
          if url = [] then Inr None
          else
            (let durationStr = getElementByTagNameNS_duration item;
                 duration = (if truthy durationStr
                             then map_option parseDuration durationStr else None);
                 ep = \<lambda>published.
                   \<lparr> guid = (case guid_text item of None \<Rightarrow> url | Some g \<Rightarrow> g),
                     ep_title = (case title_text item of
                                   None \<Rightarrow> ''Untitled Episode'' | Some t \<Rightarrow> t),
                     ep_description = description_text item,
                     audioUrl = url,
                     ep_imageUrl = href_attr item,
                     ep_publishedAt = published,
                     ep_duration = duration \<rparr>
             in case pubDate_text item of
                  None \<Rightarrow> Inr (Some (ep None))
                | Some pubDate \<Rightarrow>
                    if pubDate = [] then Inr (Some (ep None))
                    else (case toISOString pf pubDate of
                            None \<Rightarrow> Inl InvalidDate
                          | Some stamp \<Rightarrow> Inr (Some (ep (Some stamp))))))"

fun parseRssItems :: "platform \<Rightarrow> rss_item list \<Rightarrow> error + PodcastEpisode list" where
  "parseRssItems pf [] = Inr []"
| "parseRssItems pf (item # rest) =
     (case parseRssItem pf item of
        Inl e \<Rightarrow> Inl e
      | Inr None \<Rightarrow> parseRssItems pf rest
      | Inr (Some ep) \<Rightarrow>
          (case parseRssItems pf rest of
             Inl e \<Rightarrow> Inl e
           | Inr eps \<Rightarrow> Inr (ep # eps)))"

definition nonempty :: "string option \<Rightarrow> string option" where
  \<comment> \<open>\<open>s || undefined\<close>\<close>
  "nonempty s = (if truthy s then s else None)"

definition parseRssFeed :: "platform \<Rightarrow> string \<Rightarrow> string \<Rightarrow> error + PodcastFeed" where
  "parseRssFeed pf xml feedUrl =
     (case parseFromString pf xml of
        None \<Rightarrow> Inl InvalidRss
      | Some ch \<Rightarrow>
          (case parseRssItems pf (ch_items ch) of
             Inl e \<Rightarrow> Inl e
           | Inr episodes \<Rightarrow>
               Inr \<lparr> feed_url = feedUrl,
                     feed_title = (case ch_title_text ch of
                                     None \<Rightarrow> ''Unknown Podcast'' | Some t \<Rightarrow> t),
                     feed_description = nonempty (ch_description_text ch),
                     feed_imageUrl = nonempty (case ch_image_url_text ch of
                                                 Some u \<Rightarrow> Some u
                                               | None \<Rightarrow> ch_href_attr ch),
                     feed_episodes = episodes \<rparr>))"

definition fetchAndParseFeed :: "platform \<Rightarrow> PodcastState \<Rightarrow> string \<Rightarrow> error + PodcastFeed" where
  "fetchAndParseFeed pf st feedUrl =
     (let fetchUrl = (case corsProxyUrl st of
                        None \<Rightarrow> feedUrl
                      | Some proxy \<Rightarrow>
                          if proxy = [] then feedUrl
                          else proxy @ encodeURIComponent pf feedUrl)
      in case fetch pf fetchUrl of
           None \<Rightarrow> Inl NetworkError
         | Some response \<Rightarrow>
             if \<not> ok response
             then Inl (FetchFailed (status response) (statusText response))
             else parseRssFeed pf (body response) feedUrl)"

definition refreshFeed ::
  "platform \<Rightarrow> PodcastState \<Rightarrow> string \<Rightarrow> (error + PodcastFeed) \<times> PodcastState" where
  "refreshFeed pf st feedUrl =
     (case fetchAndParseFeed pf st feedUrl of
        Inl e \<Rightarrow> (Inl e, st)
      | Inr fd \<Rightarrow> (Inr fd, st\<lparr>feeds := AList.update feedUrl fd (feeds st)\<rparr>))"

definition mapFeedToCollection :: "PodcastFeed \<Rightarrow> MediaCollection" where
  "mapFeedToCollection fd =
     \<lparr> coll_id = feed_url fd,
       coll_source = Podcast,
       coll_title = feed_title fd,
       coll_description = feed_description fd,
       coll_thumbnail = feed_imageUrl fd,
       coll_contentType = Feed,
       coll_itemCount = Some (int (length (feed_episodes fd))) \<rparr>"

definition mapEpisode :: "PodcastEpisode \<Rightarrow> PodcastFeed \<Rightarrow> MediaItem" where
  "mapEpisode ep fd =
     \<lparr> item_id = guid ep,
       item_source = Podcast,
       item_title = ep_title ep,
       item_sourceId = audioUrl ep,
       item_thumbnail = (case ep_imageUrl ep of None \<Rightarrow> feed_imageUrl fd | Some u \<Rightarrow> Some u),
       item_duration = ep_duration ep,
       item_artist = Some (feed_title fd),
       item_publishedAt = ep_publishedAt ep \<rparr>"

definition option_limit :: "FetchMediaOptions option \<Rightarrow> int \<Rightarrow> int" where
  \<comment> \<open>\<open>options?.limit ?? dflt\<close>\<close>
  "option_limit options dflt =
     (case options of
        None \<Rightarrow> dflt
      | Some opts \<Rightarrow> (case limit opts of None \<Rightarrow> dflt | Some l \<Rightarrow> l))"

definition option_offset :: "FetchMediaOptions option \<Rightarrow> int option" where
  \<comment> \<open>\<open>options?.cursor ? parseInt(options.cursor, 10) : 0\<close>; \<open>None\<close> is \<open>NaN\<close>\<close>
  "option_offset options =
     (case options of
        None \<Rightarrow> Some 0
      | Some opts \<Rightarrow>
          (case cursor opts of
             None \<Rightarrow> Some 0
           | Some c \<Rightarrow> if c = [] then Some 0 else js_parseInt c))"

definition js_plus :: "int option \<Rightarrow> int \<Rightarrow> int option" where
  \<comment> \<open>\<open>offset + limit\<close>, where \<open>None\<close> is \<open>NaN\<close>\<close>
  "js_plus offset lim = map_option (\<lambda>off. off + lim) offset"

definition js_less :: "int option \<Rightarrow> int \<Rightarrow> bool" where
  \<comment> \<open>\<open>a < b\<close>: a comparison with \<open>NaN\<close> is false\<close>
  "js_less a b = (case a of None \<Rightarrow> False | Some x \<Rightarrow> x < b)"

definition podcast_getAvailableMedia ::
  "PodcastState \<Rightarrow> FetchMediaOptions option \<Rightarrow> MediaCollection PaginatedResult" where
  "podcast_getAvailableMedia st options =
     (let allFeeds = map snd (feeds st);
          lim = option_limit options (int (length allFeeds));
          offset = option_offset options;
          page = js_slice allFeeds offset (js_plus offset lim);
          hasMore = js_less (js_plus offset lim) (int (length allFeeds))
      in \<lparr> items = map mapFeedToCollection page,
           nextCursor = (if hasMore then map_option js_String (js_plus offset lim) else None),
           total = Some (int (length allFeeds)) \<rparr>)"

definition podcast_getCollectionItems ::
  "platform \<Rightarrow> PodcastState \<Rightarrow> string \<Rightarrow> FetchMediaOptions option
     \<Rightarrow> (error + MediaItem PaginatedResult) \<times> PodcastState" where
  "podcast_getCollectionItems pf st collectionId options =
     (let fetched = (case map_of (feeds st) collectionId of
                       Some fd \<Rightarrow> (Inr fd, st)
                     | None \<Rightarrow>
                         (case fetchAndParseFeed pf st collectionId of
                            Inl e \<Rightarrow> (Inl e, st)
                          | Inr fd \<Rightarrow>
                              (Inr fd,
                               st\<lparr>feeds := AList.update collectionId fd (feeds st)\<rparr>)))
      in case fetched of
           (Inl e, st') \<Rightarrow> (Inl e, st')
         | (Inr fd, st') \<Rightarrow>
             (let lim = option_limit options 20;
                  offset = option_offset options;
                  page = js_slice (feed_episodes fd) offset (js_plus offset lim);
                  hasMore = js_less (js_plus offset lim) (int (length (feed_episodes fd)))
              in (Inr \<lparr> items = map (\<lambda>ep. mapEpisode ep fd) page,
                         nextCursor = (if hasMore
                                       then map_option js_String (js_plus offset lim)
                                       else None),
                         total = Some (int (length (feed_episodes fd))) \<rparr>,
                  st')))"

fun podcast_newItems ::
  "PodcastFeed \<Rightarrow> string \<Rightarrow> PodcastEpisode list \<Rightarrow> MediaItem list \<Rightarrow> MediaItem list" where
  \<comment> \<open>the \<open>for\<close> loop of \<open>fetchUpdatesSince\<close>: push until the marker, then \<open>break\<close>\<close>
  "podcast_newItems fd lastSeenItemId [] newItems = newItems"
| "podcast_newItems fd lastSeenItemId (ep # rest) newItems =
     (if guid ep = lastSeenItemId then newItems
      else podcast_newItems fd lastSeenItemId rest (newItems @ [mapEpisode ep fd]))"

definition podcast_fetchUpdatesSince ::
  "platform \<Rightarrow> PodcastState \<Rightarrow> string \<Rightarrow> string \<Rightarrow> (error + MediaItem list) \<times> PodcastState" where
  "podcast_fetchUpdatesSince pf st collectionId lastSeenItemId =
     (case refreshFeed pf st collectionId of
        (Inl e, st') \<Rightarrow> (Inl e, st')
      | (Inr fd, st') \<Rightarrow>
          (Inr (rev (podcast_newItems fd lastSeenItemId (feed_episodes fd) [])), st'))"

section \<open>YouTubeSource\<close>

record YouTubeThumbnails =
  thumb_default :: "string option"
  thumb_medium :: "string option"
  thumb_high :: "string option"

record YouTubePlaylistItem =
  pli_id :: string
  snippet_title :: string
  snippet_description :: string
  snippet_thumbnails :: YouTubeThumbnails
  snippet_channelTitle :: string
  snippet_publishedAt :: string
  snippet_videoId :: string
  contentDetails :: "(string \<times> string) option"
    \<comment> \<open>\<open>videoId\<close> and \<open>videoPublishedAt\<close>\<close>

record YouTubePlaylistItemsResponse =
  resp_items :: "YouTubePlaylistItem list"
  nextPageToken :: "string option"
  totalResults :: int

text \<open>
  The YouTube Data API as \<open>fetchApi\<close> sees it, per bearer token.  \<open>Inl\<close> is what
  \<open>fetchApi\<close> throws for the request (\<open>ApiError\<close> for a response that is not ok).
  \<open>channels\<close> answers with the uploads playlist of each item of the response;
  \<open>playlistItems\<close> takes the playlist, \<open>maxResults\<close> and the page token.
\<close>

record YouTubeApi =
  channels :: "string \<Rightarrow> string \<Rightarrow> error + string list"
  playlistItems ::
    "string \<Rightarrow> string \<Rightarrow> int \<Rightarrow> string option \<Rightarrow> error + YouTubePlaylistItemsResponse"

record YouTubeState =
  yt_accessToken :: "string option"
  uploadsPlaylistCache :: "string \<rightharpoonup> string"

definition youtube_fetchApi :: "YouTubeState \<Rightarrow> (string \<Rightarrow> error + 'a) \<Rightarrow> error + 'a" where
  \<comment> \<open>the request is given as a function of the bearer token\<close>
  "youtube_fetchApi st request =
     (case yt_accessToken st of
        None \<Rightarrow> Inl NotAuthenticated
      | Some token \<Rightarrow> if token = [] then Inl NotAuthenticated else request token)"

definition getUploadsPlaylistId ::
  "YouTubeApi \<Rightarrow> YouTubeState \<Rightarrow> string \<Rightarrow> (error + string) \<times> YouTubeState" where
  "getUploadsPlaylistId api st channelId =
     (let resolved =
            (case youtube_fetchApi st (\<lambda>token. channels api token channelId) of
               Inl e \<Rightarrow> (Inl e, st)
             | Inr [] \<Rightarrow> (Inl (ChannelNotFound channelId), st)
             | Inr (uploadsId # _) \<Rightarrow>
                 (Inr uploadsId,
                  st\<lparr>uploadsPlaylistCache :=
                       (uploadsPlaylistCache st)(channelId \<mapsto> uploadsId)\<rparr>))
      in case uploadsPlaylistCache st channelId of
           None \<Rightarrow> resolved
         | Some cached \<Rightarrow> if cached = [] then resolved else (Inr cached, st))"

definition pickThumbnail :: "YouTubeThumbnails \<Rightarrow> string option" where
  "pickThumbnail t =
     (case thumb_medium t of
        Some u \<Rightarrow> Some u
      | None \<Rightarrow> (case thumb_high t of Some u \<Rightarrow> Some u | None \<Rightarrow> thumb_default t))"

definition mapPlaylistItem :: "YouTubePlaylistItem \<Rightarrow> MediaItem" where
  "mapPlaylistItem item =
     (let videoId = (case contentDetails item of
                       Some (v, _) \<Rightarrow> v
                     | None \<Rightarrow> snippet_videoId item)
      in \<lparr> item_id = videoId,
           item_source = YouTube,
           item_title = snippet_title item,
           item_sourceId = videoId,
           item_thumbnail = pickThumbnail (snippet_thumbnails item),
           item_duration = None,
           item_artist = Some (snippet_channelTitle item),
           item_publishedAt = Some (case contentDetails item of
                                      Some (_, p) \<Rightarrow> p
                                    | None \<Rightarrow> snippet_publishedAt item) \<rparr>)"

definition youtube_getCollectionItems ::
  "YouTubeApi \<Rightarrow> YouTubeState \<Rightarrow> string \<Rightarrow> FetchMediaOptions option
     \<Rightarrow> (error + MediaItem PaginatedResult) \<times> YouTubeState" where
  "youtube_getCollectionItems api st collectionId options =
     (case getUploadsPlaylistId api st collectionId of
        (Inl e, st') \<Rightarrow> (Inl e, st')
      | (Inr uploadsPlaylistId, st') \<Rightarrow>
          (let lim = option_limit options 20;
               pageToken = (case options of
                              None \<Rightarrow> None
                            | Some opts \<Rightarrow> nonempty (cursor opts))
           in case youtube_fetchApi st'
                     (\<lambda>token. playlistItems api token uploadsPlaylistId lim pageToken) of
                Inl e \<Rightarrow> (Inl e, st')
              | Inr data \<Rightarrow>
                  (Inr \<lparr> items = map mapPlaylistItem (resp_items data),
                         nextCursor = nextPageToken data,
                         total = Some (totalResults data) \<rparr>,
                   st')))"

fun scan_page :: "string \<Rightarrow> MediaItem list \<Rightarrow> MediaItem list \<Rightarrow> bool \<times> MediaItem list" where
  \<comment> \<open>the \<open>for\<close> loop over one page: the pair is \<open>found\<close> and \<open>allNew\<close>\<close>
  "scan_page lastSeenItemId [] allNew = (False, allNew)"
| "scan_page lastSeenItemId (item # rest) allNew =
     (if item_id item = lastSeenItemId then (True, allNew)
      else scan_page lastSeenItemId rest (allNew @ [item]))"

text \<open>
  The \<open>while\<close> loop of \<open>YouTubeSource.fetchUpdatesSince\<close> has no bound of its own: it runs
  for as long as the API hands out page tokens.  A run that never ends is \<open>None\<close>.
\<close>

partial_function (option) youtube_pages ::
  "YouTubeApi \<Rightarrow> string \<Rightarrow> string \<Rightarrow> YouTubeState \<Rightarrow> string option \<Rightarrow> MediaItem list
     \<Rightarrow> ((error + MediaItem list) \<times> YouTubeState) option" where
  "youtube_pages api collectionId lastSeenItemId st cur allNew =
     (case youtube_getCollectionItems api st collectionId
             (Some \<lparr> limit = Some 20, cursor = cur \<rparr>) of
        (Inl e, st') \<Rightarrow> Some (Inl e, st')
      | (Inr page, st') \<Rightarrow>
          (case scan_page lastSeenItemId (items page) allNew of
             (found, allNew') \<Rightarrow>
               if \<not> found \<and> truthy (nextCursor page)
               then youtube_pages api collectionId lastSeenItemId st' (nextCursor page) allNew'
               else Some (Inr (rev allNew'), st')))"

declare youtube_pages.simps [code]

definition youtube_fetchUpdatesSince ::
  "YouTubeApi \<Rightarrow> YouTubeState \<Rightarrow> string \<Rightarrow> string
     \<Rightarrow> ((error + MediaItem list) \<times> YouTubeState) option" where
  "youtube_fetchUpdatesSince api st collectionId lastSeenItemId =
     youtube_pages api collectionId lastSeenItemId st None []"

section \<open>MediaSource: the capability flag\<close>

record SpotifyState =
  sp_accessToken :: "string option"

datatype MediaSource =
    SpotifySource SpotifyState
  | YouTubeSource YouTubeState
  | PodcastSource PodcastState

fun isUpdateSource :: "MediaSource \<Rightarrow> bool" where
  "isUpdateSource (SpotifySource _) = False"
| "isUpdateSource (YouTubeSource _) = True"
| "isUpdateSource (PodcastSource _) = True"

fun displayName :: "MediaSource \<Rightarrow> string" where
  "displayName (SpotifySource _) = ''Spotify''"
| "displayName (YouTubeSource _) = ''YouTube''"
| "displayName (PodcastSource _) = ''Podcasts''"

fun fetchUpdatesSince ::
  "platform \<Rightarrow> YouTubeApi \<Rightarrow> MediaSource \<Rightarrow> string \<Rightarrow> string
     \<Rightarrow> ((error + MediaItem list) \<times> MediaSource) option" where
  \<comment> \<open>SpotifySource does not override the base method, which returns \<open>[]\<close>\<close>
  "fetchUpdatesSince pf api (SpotifySource st) collectionId lastSeenItemId =
     Some (Inr [], SpotifySource st)"
| "fetchUpdatesSince pf api (YouTubeSource st) collectionId lastSeenItemId =
     map_option (\<lambda>(r, st'). (r, YouTubeSource st'))
       (youtube_fetchUpdatesSince api st collectionId lastSeenItemId)"
| "fetchUpdatesSince pf api (PodcastSource st) collectionId lastSeenItemId =
     Some (case podcast_fetchUpdatesSince pf st collectionId lastSeenItemId of
             (r, st') \<Rightarrow> (r, PodcastSource st'))"

definition checkForUpdates ::
  "platform \<Rightarrow> YouTubeApi \<Rightarrow> MediaSource \<Rightarrow> string \<Rightarrow> string
     \<Rightarrow> ((error + MediaItem list) \<times> MediaSource) option" where
  "checkForUpdates pf api src collectionId lastSeenItemId =
     (if \<not> isUpdateSource src
      then Some (Inl (UnsupportedOperation (displayName src)), src)
      else fetchUpdatesSince pf api src collectionId lastSeenItemId)"

section \<open>Following the cursors of a listing\<close>

text \<open>
  A caller that pages through a listing: it starts with the given cursor, keeps the
  page size, and passes each \<open>nextCursor\<close> back verbatim until a page has none.  The
  first argument limits the number of calls; \<open>None\<close> means that the limit was reached.
\<close>

fun collectionItems_pages ::
  "nat \<Rightarrow> platform \<Rightarrow> PodcastState \<Rightarrow> string \<Rightarrow> int option \<Rightarrow> string option
     \<Rightarrow> (error + MediaItem PaginatedResult list) option" where
  "collectionItems_pages 0 pf st collectionId lim cur = None"
| "collectionItems_pages (Suc fuel) pf st collectionId lim cur =
     (case podcast_getCollectionItems pf st collectionId
             (Some \<lparr> limit = lim, cursor = cur \<rparr>) of
        (Inl e, st') \<Rightarrow> Some (Inl e)
      | (Inr page, st') \<Rightarrow>
          (case nextCursor page of
             None \<Rightarrow> Some (Inr [page])
           | Some c \<Rightarrow>
               (case collectionItems_pages fuel pf st' collectionId lim (Some c) of
                  None \<Rightarrow> None
                | Some (Inl e) \<Rightarrow> Some (Inl e)
                | Some (Inr pages) \<Rightarrow> Some (Inr (page # pages)))))"

fun availableMedia_pages ::
  "nat \<Rightarrow> PodcastState \<Rightarrow> int option \<Rightarrow> string option
     \<Rightarrow> MediaCollection PaginatedResult list option" where
  "availableMedia_pages 0 st lim cur = None"
| "availableMedia_pages (Suc fuel) st lim cur =
     (let page = podcast_getAvailableMedia st (Some \<lparr> limit = lim, cursor = cur \<rparr>)
      in case nextCursor page of
           None \<Rightarrow> Some [page]
         | Some c \<Rightarrow> map_option ((#) page) (availableMedia_pages fuel st lim (Some c)))"

section \<open>The order of published items\<close>





section \<open>The pages of an uploads listing\<close>

text \<open>
  \<open>youtube_listing api collectionId st cur pages\<close>: starting from state \<open>st\<close> and page
  token \<open>cur\<close>, the listing of the channel is exactly \<open>pages\<close>, fetched twenty items at a
  time, each page reached through the token of the one before, the final page without
  a token.
\<close>

inductive youtube_listing ::
  "YouTubeApi \<Rightarrow> string \<Rightarrow> YouTubeState \<Rightarrow> string option \<Rightarrow> MediaItem PaginatedResult list
     \<Rightarrow> bool" for api collectionId where
  final_page:
    "youtube_getCollectionItems api st collectionId (Some \<lparr> limit = Some 20, cursor = cur \<rparr>)
       = (Inr page, st')
     \<Longrightarrow> \<not> truthy (nextCursor page)
     \<Longrightarrow> youtube_listing api collectionId st cur [page]"
| next_page:
    "youtube_getCollectionItems api st collectionId (Some \<lparr> limit = Some 20, cursor = cur \<rparr>)
       = (Inr page, st')
     \<Longrightarrow> truthy (nextCursor page)
     \<Longrightarrow> youtube_listing api collectionId st' (nextCursor page) pages
     \<Longrightarrow> youtube_listing api collectionId st cur (page # pages)"

section \<open>The shape of a page\<close>

definition paginate :: "'a list \<Rightarrow> int option \<Rightarrow> int \<Rightarrow> 'a PaginatedResult" where
  \<comment> \<open>the page that both listing operations of PodcastSource compute from the whole
      list, the offset and the limit\<close>
  "paginate xs offset lim =
     \<lparr> items = js_slice xs offset (js_plus offset lim),
       nextCursor = (if js_less (js_plus offset lim) (int (length xs))
                     then map_option js_String (js_plus offset lim) else None),
       total = Some (int (length xs)) \<rparr>"

section \<open>Fixtures\<close>

text \<open>The feed of the repository's PodcastSource tests: three episodes, newest first.\<close>

definition sample_item :: "string \<Rightarrow> string \<Rightarrow> string \<Rightarrow> string \<Rightarrow> string \<Rightarrow> rss_item" where
  "sample_item g t d url dur =
     \<lparr> enclosure_url = Some url, guid_text = Some g, title_text = Some t,
       description_text = None, pubDate_text = Some d, href_attr = None,
       itunes_duration_text = Some dur, plain_duration_text = None \<rparr>"

definition sample_items :: "rss_item list" where
  "sample_items =
     [sample_item ''ep-3'' ''Episode 3'' ''Wed, 03 Jul 2024 12:00:00 GMT''
        ''https://example.com/ep3.mp3'' ''1:30:00'',
      sample_item ''ep-2'' ''Episode 2'' ''Tue, 02 Jul 2024 12:00:00 GMT''
        ''https://example.com/ep2.mp3'' ''45:30'',
      sample_item ''ep-1'' ''Episode 1'' ''Mon, 01 Jul 2024 12:00:00 GMT''
        ''https://example.com/ep1.mp3'' ''3600'']"

definition sample_channel :: "rss_item list \<Rightarrow> rss_channel" where
  "sample_channel its =
     \<lparr> ch_title_text = Some ''Test Podcast'',
       ch_description_text = Some ''A test podcast feed'',
       ch_image_url_text = Some ''https://example.com/podcast-art.jpg'',
       ch_href_attr = None,
       ch_items = its \<rparr>"

definition sample_dates :: "string \<Rightarrow> string option" where
  "sample_dates =
     map_of [(''Wed, 03 Jul 2024 12:00:00 GMT'', ''2024-07-03T12:00:00.000Z''),
             (''Tue, 02 Jul 2024 12:00:00 GMT'', ''2024-07-02T12:00:00.000Z''),
             (''Mon, 01 Jul 2024 12:00:00 GMT'', ''2024-07-01T12:00:00.000Z'')]"

definition sample_platform :: "rss_item list \<Rightarrow> platform" where
  \<comment> \<open>a network that serves one feed, whose document has the given items\<close>
  "sample_platform its =
     \<lparr> fetch = (\<lambda>url. if url = ''feed.xml''
                       then Some \<lparr> ok = True, status = 200, statusText = ''OK'',
                                   body = ''<rss>'' \<rparr>
                       else None),
       encodeURIComponent = (\<lambda>s. s),
       parseFromString = (\<lambda>xml. if xml = ''<rss>'' then Some (sample_channel its) else None),
       toISOString = sample_dates \<rparr>"

definition empty_podcast :: PodcastState where
  "empty_podcast = \<lparr> feeds = [], corsProxyUrl = None \<rparr>"

definition silent_api :: YouTubeApi where
  \<comment> \<open>an API that is never reached\<close>
  "silent_api = \<lparr> channels = (\<lambda>token channelId. Inl NetworkError),
                  playlistItems = (\<lambda>token playlistId lim pageToken. Inl NetworkError) \<rparr>"

definition video :: "string \<Rightarrow> string \<Rightarrow> YouTubePlaylistItem" where
  "video v published =
     \<lparr> pli_id = ''pli-'' @ v, snippet_title = v, snippet_description = [],
       snippet_thumbnails = \<lparr> thumb_default = None, thumb_medium = None, thumb_high = None \<rparr>,
       snippet_channelTitle = ''Ch'', snippet_publishedAt = published,
       snippet_videoId = v, contentDetails = Some (v, published) \<rparr>"

definition two_page_api :: YouTubeApi where
  \<comment> \<open>an uploads listing of two pages, newest first\<close>
  "two_page_api =
     \<lparr> channels = (\<lambda>token channelId. Inr [''UU789'']),
       playlistItems = (\<lambda>token playlistId lim pageToken.
          if pageToken = None
          then Inr \<lparr> resp_items = [video ''vid-4'' ''2024-08-04T00:00:00Z'',
                                    video ''vid-3'' ''2024-08-03T00:00:00Z''],
                     nextPageToken = Some ''page2'', totalResults = 4 \<rparr>
          else Inr \<lparr> resp_items = [video ''vid-2'' ''2024-08-02T00:00:00Z'',
                                    video ''vid-1'' ''2024-08-01T00:00:00Z''],
                     nextPageToken = None, totalResults = 4 \<rparr>) \<rparr>"


definition signed_in :: YouTubeState where
  "signed_in = \<lparr> yt_accessToken = Some ''yt-token'', uploadsPlaylistCache = Map.empty \<rparr>"

definition sample_episode ::
  "string \<Rightarrow> string \<Rightarrow> string \<Rightarrow> string \<Rightarrow> int \<Rightarrow> PodcastEpisode" where
  "sample_episode g t d url dur =
     \<lparr> guid = g, ep_title = t, ep_description = None, audioUrl = url, ep_imageUrl = None,
       ep_publishedAt = Some d, ep_duration = Some (Num dur) \<rparr>"

definition sample_episodes :: "PodcastEpisode list" where
  "sample_episodes =
     [sample_episode ''ep-3'' ''Episode 3'' ''2024-07-03T12:00:00.000Z''
        ''https://example.com/ep3.mp3'' 5400,
      sample_episode ''ep-2'' ''Episode 2'' ''2024-07-02T12:00:00.000Z''
        ''https://example.com/ep2.mp3'' 2730,
      sample_episode ''ep-1'' ''Episode 1'' ''2024-07-01T12:00:00.000Z''
        ''https://example.com/ep1.mp3'' 3600]"

definition sample_feed :: "PodcastEpisode list \<Rightarrow> PodcastFeed" where
  \<comment> \<open>the parsed form of the sample document\<close>
  "sample_feed eps =
     \<lparr> feed_url = ''feed.xml'',
       feed_title = ''Test Podcast'',
       feed_description = Some ''A test podcast feed'',
       feed_imageUrl = Some ''https://example.com/podcast-art.jpg'',
       feed_episodes = eps \<rparr>"

definition page_one :: "MediaItem PaginatedResult" where
  \<comment> \<open>the first page of \<open>two_page_api\<close> as \<open>getCollectionItems\<close> returns it\<close>
  "page_one =
     \<lparr> items = map mapPlaylistItem [video ''vid-4'' ''2024-08-04T00:00:00Z'',
                                      video ''vid-3'' ''2024-08-03T00:00:00Z''],
       nextCursor = Some ''page2'', total = Some 4 \<rparr>"

definition page_two :: "MediaItem PaginatedResult" where
  "page_two =
     \<lparr> items = map mapPlaylistItem [video ''vid-2'' ''2024-08-02T00:00:00Z'',
                                      video ''vid-1'' ''2024-08-01T00:00:00Z''],
       nextCursor = None, total = Some 4 \<rparr>"

definition signed_in_cached :: YouTubeState where
  "signed_in_cached =
     signed_in\<lparr>uploadsPlaylistCache := [''UC789'' \<mapsto> ''UU789'']\<rparr>"

definition sample_stored :: PodcastState where
  \<comment> \<open>the adapter after the sample feed has been fetched once\<close>
  "sample_stored =
     \<lparr> feeds = [(''feed.xml'', sample_feed sample_episodes)], corsProxyUrl = None \<rparr>"


section \<open>Duration parsing\<close>

lemma digit_not_space: "is_digit c \<Longrightarrow> \<not> is_js_space c"
  by (auto simp: is_digit_def is_js_space_def)

lemma digit_not_colon: "is_digit c \<Longrightarrow> c \<noteq> CHR '':''"
  by (auto simp: is_digit_def)

lemma colon_not_space: "\<not> is_js_space (CHR '':'')"
  by (simp add: is_js_space_def)

lemma colon_not_digit: "\<not> is_digit (CHR '':'')"
  by (simp add: is_digit_def)

lemma digits_no_colon: "list_all is_digit d \<Longrightarrow> CHR '':'' \<notin> set d"
  by (auto simp: list_all_iff dest: digit_not_colon)

lemma js_trim_id:
  assumes "\<And>c. c \<in> set s \<Longrightarrow> \<not> is_js_space c"
  shows "js_trim s = s"
proof -
  have "dropWhile is_js_space s = s" using assms by (rule dropWhile_id)
  moreover have "dropWhile is_js_space (rev s) = rev s"
    by (rule dropWhile_id) (simp add: assms)
  ultimately show ?thesis by (simp add: js_trim_def)
qed

lemma js_split_no_sep: "sep \<notin> set d \<Longrightarrow> js_split sep d = [d]"
  by (induction d) auto

lemma js_split_field: "sep \<notin> set d \<Longrightarrow> js_split sep (d @ sep # r) = d # js_split sep r"
  by (induction d) auto

lemma js_Number_digits:
  "d \<noteq> [] \<Longrightarrow> list_all is_digit d \<Longrightarrow> js_Number d = js_int (dec_value d)"
  by (simp add: js_Number_def js_trim_id digit_not_space list_all_iff)

lemma foldl_digits_nonneg:
  "list_all is_digit d \<Longrightarrow> 0 \<le> a \<Longrightarrow> 0 \<le> foldl (\<lambda>a c. 10 * a + digit_val c) a d"
proof (induction d arbitrary: a)
  case Nil
  then show ?case by simp
next
  case (Cons c d)
  from Cons.prems have "0 \<le> digit_val c" by (simp add: is_digit_def digit_val_def)
  with Cons.prems have "0 \<le> 10 * a + digit_val c" by simp
  with Cons show ?case by simp
qed

lemma dec_value_nonneg: "list_all is_digit d \<Longrightarrow> 0 \<le> dec_value d"
  by (simp add: dec_value_def foldl_digits_nonneg)

lemma js_int_safe: "0 \<le> n \<Longrightarrow> n < 2 ^ 53 \<Longrightarrow> js_int n = Num n"
  by (simp add: js_int_def)

lemma js_parseInt_digits:
  assumes ne: "d \<noteq> []" and dg: "list_all is_digit d"
  shows "js_parseInt d = Some (dec_value d)"
proof -
  obtain c r where d: "d = c # r" using ne by (cases d) auto
  from dg d have c: "is_digit c" by simp
  then have c1: "\<not> is_js_space c" and c2: "c \<noteq> CHR ''-''" and c3: "c \<noteq> CHR ''+''"
    by (auto simp: is_digit_def is_js_space_def)
  have dw: "dropWhile is_js_space d = d" using d c1 by simp
  have tw: "takeWhile is_digit d = d" using dg by (simp add: list_all_iff)
  have "js_parseInt d
          = (if takeWhile is_digit d = [] then None
             else Some (1 * dec_value (takeWhile is_digit d)))"
    unfolding js_parseInt_def dw Let_def using d c2 c3 by simp
  then show ?thesis using tw ne by simp
qed

lemma parseDuration_seconds:
  "d \<noteq> [] \<Longrightarrow> list_all is_digit d \<Longrightarrow> parseDuration d = js_int (dec_value d)"
  by (simp add: parseDuration_def js_trim_id digit_not_space list_all_iff js_parseInt_digits)

lemma parseDuration_mm_ss:
  assumes m: "m \<noteq> []" "list_all is_digit m" and s: "s \<noteq> []" "list_all is_digit s"
  shows "parseDuration (m @ CHR '':'' # s)
           = js_add (js_mul (js_int (dec_value m)) (Num 60)) (js_int (dec_value s))"
proof -
  let ?t = "m @ CHR '':'' # s"
  have nosp: "\<not> is_js_space c" if "c \<in> set ?t" for c
    using that m(2) s(2) by (auto simp: list_all_iff digit_not_space colon_not_space)
  have trim: "js_trim ?t = ?t" by (rule js_trim_id) (rule nosp)
  have sp: "js_split (CHR '':'') ?t = [m, s]"
    by (simp add: js_split_field js_split_no_sep digits_no_colon m(2) s(2))
  have "parseDuration ?t = js_add (js_mul (js_Number m) (Num 60)) (js_Number s)"
    unfolding parseDuration_def trim Let_def sp by (simp add: colon_not_digit)
  then show ?thesis
    by (simp add: js_Number_digits m s)
qed

lemma parseDuration_hh_mm_ss:
  assumes h: "h \<noteq> []" "list_all is_digit h" and m: "m \<noteq> []" "list_all is_digit m"
    and s: "s \<noteq> []" "list_all is_digit s"
  shows "parseDuration (h @ CHR '':'' # m @ CHR '':'' # s)
           = js_add (js_add (js_mul (js_int (dec_value h)) (Num 3600))
                            (js_mul (js_int (dec_value m)) (Num 60)))
               (js_int (dec_value s))"
proof -
  let ?t = "h @ CHR '':'' # m @ CHR '':'' # s"
  have nosp: "\<not> is_js_space c" if "c \<in> set ?t" for c
    using that h(2) m(2) s(2) by (auto simp: list_all_iff digit_not_space colon_not_space)
  have trim: "js_trim ?t = ?t" by (rule js_trim_id) (rule nosp)
  have sp: "js_split (CHR '':'') ?t = [h, m, s]"
    by (simp add: js_split_field js_split_no_sep digits_no_colon h(2) m(2) s(2))
  have "parseDuration ?t
          = js_add (js_add (js_mul (js_Number h) (Num 3600)) (js_mul (js_Number m) (Num 60)))
              (js_Number s)"
    unfolding parseDuration_def trim Let_def sp by (simp add: colon_not_digit)
  then show ?thesis
    by (simp add: js_Number_digits h m s)
qed

lemma parseDuration_examples:
  "parseDuration ''3600'' = Num 3600"
  "parseDuration ''45:30'' = Num 2730"
  "parseDuration ''1:30:00'' = Num 5400"
  by (simp_all add: parseDuration_def js_trim_def is_js_space_def is_digit_def js_Number_def
      dec_value_def digit_val_def js_parseInt_def js_int_def)

text \<open>
  C7. Duration normalization maps each of the three accepted encodings to integer
  seconds: a string of decimal digits to its value, \<open>MM:SS\<close> to sixty times the minutes
  plus the seconds, \<open>HH:MM:SS\<close> to 3600 times the hours plus sixty times the minutes plus
  the seconds, each field being a non-empty string of digits and the result being below
  \<open>2^53\<close>, the range in which JavaScript numbers are exact integers.  In particular
  \<open>3600\<close> gives 3600, \<open>45:30\<close> gives 2730 and \<open>1:30:00\<close> gives 5400.
\<close>

theorem parseDuration_three_encodings:
  assumes h: "h \<noteq> []" "list_all is_digit h" and m: "m \<noteq> []" "list_all is_digit m"
    and s: "s \<noteq> []" "list_all is_digit s"
    and safe: "dec_value h * 3600 + dec_value m * 60 + dec_value s < 2 ^ 53"
  shows "parseDuration s = Num (dec_value s)
       \<and> parseDuration (m @ '':'' @ s) = Num (dec_value m * 60 + dec_value s)
       \<and> parseDuration (h @ '':'' @ m @ '':'' @ s)
           = Num (dec_value h * 3600 + dec_value m * 60 + dec_value s)
       \<and> parseDuration ''3600'' = Num 3600
       \<and> parseDuration ''45:30'' = Num 2730
       \<and> parseDuration ''1:30:00'' = Num 5400"
proof -
  have h0: "0 \<le> dec_value h" and m0: "0 \<le> dec_value m" and s0: "0 \<le> dec_value s"
    using h(2) m(2) s(2) by (simp_all add: dec_value_nonneg)
  have hs: "js_int (dec_value h) = Num (dec_value h)"
    using h0 m0 s0 safe by (intro js_int_safe) auto
  have ms: "js_int (dec_value m) = Num (dec_value m)"
    using h0 m0 s0 safe by (intro js_int_safe) auto
  have ss: "js_int (dec_value s) = Num (dec_value s)"
    using h0 m0 s0 safe by (intro js_int_safe) auto
  have h36: "js_int (dec_value h * 3600) = Num (dec_value h * 3600)"
    using h0 m0 s0 safe by (intro js_int_safe) auto
  have m60: "js_int (dec_value m * 60) = Num (dec_value m * 60)"
    using h0 m0 s0 safe by (intro js_int_safe) auto
  have ms60: "js_int (dec_value m * 60 + dec_value s) = Num (dec_value m * 60 + dec_value s)"
    using h0 m0 s0 safe by (intro js_int_safe) auto
  have hm: "js_int (dec_value h * 3600 + dec_value m * 60)
              = Num (dec_value h * 3600 + dec_value m * 60)"
    using h0 m0 s0 safe by (intro js_int_safe) auto
  have hms: "js_int (dec_value h * 3600 + dec_value m * 60 + dec_value s)
              = Num (dec_value h * 3600 + dec_value m * 60 + dec_value s)"
    using h0 m0 s0 safe by (intro js_int_safe) auto
  have 1: "parseDuration s = Num (dec_value s)"
    by (simp add: parseDuration_seconds s ss)
  have 2: "parseDuration (m @ '':'' @ s) = Num (dec_value m * 60 + dec_value s)"
    using parseDuration_mm_ss [OF m s] by (simp add: ms ss m60 ms60)
  have 3: "parseDuration (h @ '':'' @ m @ '':'' @ s)
             = Num (dec_value h * 3600 + dec_value m * 60 + dec_value s)"
    using parseDuration_hh_mm_ss [OF h m s] by (simp add: hs ms ss h36 m60 hm hms)
  from 1 2 3 parseDuration_examples show ?thesis by blast
qed

theorem parseDuration_three_encodings_witness:
  "''2'' \<noteq> [] \<and> list_all is_digit ''2'' \<and> ''05'' \<noteq> [] \<and> list_all is_digit ''05''
   \<and> ''09'' \<noteq> [] \<and> list_all is_digit ''09''
   \<and> dec_value ''2'' * 3600 + dec_value ''05'' * 60 + dec_value ''09'' < 2 ^ 53
   \<and> parseDuration ''09'' = Num 9
   \<and> parseDuration ''05:09'' = Num 309
   \<and> parseDuration ''2:05:09'' = Num 7509"
  using parseDuration_three_encodings [of "''2''" "''05''" "''09''"]
  by (simp add: is_digit_def dec_value_def digit_val_def)

section \<open>The capability flag\<close>

text \<open>
  C2. SpotifySource is the adapter whose \<open>isUpdateSource\<close> flag is false, and on every
  adapter whose flag is false \<open>checkForUpdates\<close> fails with UnsupportedOperation for all
  arguments: it returns no result and leaves the adapter as it was.
\<close>

theorem checkForUpdates_unsupported:
  "\<not> isUpdateSource (SpotifySource sp)
   \<and> (\<not> isUpdateSource src \<longrightarrow>
        checkForUpdates pf api src collectionId lastSeenItemId
          = Some (Inl (UnsupportedOperation (displayName src)), src))"
  by (simp add: checkForUpdates_def)

theorem checkForUpdates_unsupported_witness:
  "\<not> isUpdateSource (SpotifySource \<lparr> sp_accessToken = None \<rparr>)
   \<and> checkForUpdates (sample_platform sample_items) two_page_api
        (SpotifySource \<lparr> sp_accessToken = None \<rparr>) ''pl-1'' ''item-1''
       = Some (Inl (UnsupportedOperation ''Spotify''), SpotifySource \<lparr> sp_accessToken = None \<rparr>)"
  using checkForUpdates_unsupported [of "\<lparr> sp_accessToken = None \<rparr>"
      "SpotifySource \<lparr> sp_accessToken = None \<rparr>" "sample_platform sample_items" two_page_api
      "''pl-1''" "''item-1''"]
  by simp

section \<open>Update detection: what the loops compute\<close>

lemma takeWhile_all: "marker \<notin> f ` set xs \<Longrightarrow> takeWhile (\<lambda>x. f x \<noteq> marker) xs = xs"
  by (induction xs) auto

lemma takeWhile_append_absent:
  "marker \<notin> f ` set xs
   \<Longrightarrow> takeWhile (\<lambda>x. f x \<noteq> marker) (xs @ ys) = xs @ takeWhile (\<lambda>x. f x \<noteq> marker) ys"
  by (induction xs) auto

lemma takeWhile_append_present:
  "marker \<in> f ` set xs
   \<Longrightarrow> takeWhile (\<lambda>x. f x \<noteq> marker) (xs @ ys) = takeWhile (\<lambda>x. f x \<noteq> marker) xs"
  by (induction xs) auto

lemma podcast_newItems_takeWhile:
  "podcast_newItems fd marker eps acc
     = acc @ map (\<lambda>ep. mapEpisode ep fd) (takeWhile (\<lambda>ep. guid ep \<noteq> marker) eps)"
  by (induction eps arbitrary: acc) auto

lemma scan_page_takeWhile:
  "scan_page marker its acc
     = (marker \<in> item_id ` set its, acc @ takeWhile (\<lambda>i. item_id i \<noteq> marker) its)"
  by (induction its arbitrary: acc) auto

lemma podcast_fetchUpdatesSince_result:
  assumes "fetchAndParseFeed pf st feedUrl = Inr fd"
  shows "podcast_fetchUpdatesSince pf st feedUrl marker
           = (Inr (rev (map (\<lambda>ep. mapEpisode ep fd)
                          (takeWhile (\<lambda>ep. guid ep \<noteq> marker) (feed_episodes fd)))),
              st\<lparr>feeds := AList.update feedUrl fd (feeds st)\<rparr>)"
  using assms
  by (simp add: podcast_fetchUpdatesSince_def refreshFeed_def podcast_newItems_takeWhile)

lemma podcast_fetchUpdatesSince_error:
  assumes "fetchAndParseFeed pf st feedUrl = Inl e"
  shows "podcast_fetchUpdatesSince pf st feedUrl marker = (Inl e, st)"
  using assms by (simp add: podcast_fetchUpdatesSince_def refreshFeed_def)

lemma youtube_pages_listing:
  assumes "youtube_listing api channelId st cur pages"
  shows "map_option fst (youtube_pages api channelId marker st cur acc)
           = Some (Inr (rev (acc @ takeWhile (\<lambda>i. item_id i \<noteq> marker)
                                     (concat (map items pages)))))"
  using assms
proof (induction arbitrary: acc rule: youtube_listing.induct)
  case (final_page st cur page st')
  then show ?case
    by (subst youtube_pages.simps) (simp add: scan_page_takeWhile)
next
  case (next_page st cur page st' pages)
  show ?case
  proof (cases "marker \<in> item_id ` set (items page)")
    case True
    then have "takeWhile (\<lambda>i. item_id i \<noteq> marker) (items page @ concat (map items pages))
                 = takeWhile (\<lambda>i. item_id i \<noteq> marker) (items page)"
      by (rule takeWhile_append_present)
    with True next_page.hyps(1) show ?thesis
      by (subst youtube_pages.simps) (simp add: scan_page_takeWhile)
  next
    case False
    then have "takeWhile (\<lambda>i. item_id i \<noteq> marker) (items page @ concat (map items pages))
                 = items page @ takeWhile (\<lambda>i. item_id i \<noteq> marker) (concat (map items pages))"
      by (rule takeWhile_append_absent)
    with False next_page.hyps(1,2) next_page.IH [of "acc @ items page"] show ?thesis
      by (subst youtube_pages.simps) (simp add: scan_page_takeWhile takeWhile_all)
  qed
qed

lemma checkForUpdates_podcast:
  "checkForUpdates pf api (PodcastSource st) feedUrl marker
     = Some (case podcast_fetchUpdatesSince pf st feedUrl marker of
               (r, st') \<Rightarrow> (r, PodcastSource st'))"
  by (simp add: checkForUpdates_def)

lemma checkForUpdates_youtube:
  "map_option fst (checkForUpdates pf api (YouTubeSource st) channelId marker)
     = map_option fst (youtube_pages api channelId marker st None [])"
  by (cases "youtube_pages api channelId marker st None []")
     (auto simp: checkForUpdates_def youtube_fetchUpdatesSince_def)


section \<open>Fixtures evaluated\<close>

lemmas fixture_defs =
  sample_platform_def sample_channel_def sample_items_def sample_item_def sample_dates_def
  empty_podcast_def sample_feed_def sample_episodes_def sample_episode_def

lemmas podcast_defs =
  fetchAndParseFeed_def parseRssFeed_def parseRssItem_def getElementByTagNameNS_duration_def
  nonempty_def truthy_def

lemma fetch_sample:
  "fetchAndParseFeed (sample_platform sample_items) empty_podcast ''feed.xml''
     = Inr (sample_feed sample_episodes)"
  by (simp add: fixture_defs podcast_defs parseDuration_examples)


lemmas youtube_defs =
  youtube_getCollectionItems_def getUploadsPlaylistId_def youtube_fetchApi_def
  option_limit_def nonempty_def truthy_def

lemma two_page_api_first:
  "youtube_getCollectionItems two_page_api signed_in ''UC789''
     (Some \<lparr> limit = Some 20, cursor = None \<rparr>) = (Inr page_one, signed_in_cached)"
  by (simp add: youtube_defs two_page_api_def signed_in_def signed_in_cached_def page_one_def)

lemma two_page_api_second:
  "youtube_getCollectionItems two_page_api signed_in_cached ''UC789''
     (Some \<lparr> limit = Some 20, cursor = Some ''page2'' \<rparr>) = (Inr page_two, signed_in_cached)"
  by (simp add: youtube_defs two_page_api_def signed_in_def signed_in_cached_def page_two_def)

lemma listing_two_pages:
  "youtube_listing two_page_api ''UC789'' signed_in None [page_one, page_two]"
proof -
  have 2: "youtube_listing two_page_api ''UC789'' signed_in_cached (Some ''page2'') [page_two]"
    by (rule final_page [OF two_page_api_second]) (simp add: page_two_def truthy_def)
  have n: "nextCursor page_one = Some ''page2''" by (simp add: page_one_def)
  show ?thesis
    by (rule next_page [OF two_page_api_first]) (simp_all add: n truthy_def 2)
qed

lemma two_pages_ids:
  "map item_id (concat (map items [page_one, page_two]))
     = [''vid-4'', ''vid-3'', ''vid-2'', ''vid-1'']"
  by (simp add: page_one_def page_two_def mapPlaylistItem_def video_def Let_def)

lemma sample_ids:
  "map (\<lambda>ep. item_id (mapEpisode ep fd)) sample_episodes = [''ep-3'', ''ep-2'', ''ep-1'']"
  by (simp add: sample_episodes_def sample_episode_def mapEpisode_def)

section \<open>Update detection when the marker is absent\<close>

text \<open>
  C1, as the code has it.  When \<open>lastSeenItemId\<close> does not occur among the inspected
  items, \<open>checkForUpdates\<close> returns every inspected item, in reverse listing order: all
  episodes of the refreshed feed for PodcastSource, all items of all pages of the
  uploads listing for YouTubeSource.  The result is empty only when the listing is.
\<close>

theorem checkForUpdates_marker_absent:
  "(fetchAndParseFeed pf st feedUrl = Inr fd \<longrightarrow>
      lastSeenItemId \<notin> guid ` set (feed_episodes fd) \<longrightarrow>
      map_option fst (checkForUpdates pf api (PodcastSource st) feedUrl lastSeenItemId)
        = Some (Inr (rev (map (\<lambda>ep. mapEpisode ep fd) (feed_episodes fd)))))
   \<and> (youtube_listing api channelId yst None pages \<longrightarrow>
      lastSeenItemId \<notin> item_id ` set (concat (map items pages)) \<longrightarrow>
      map_option fst (checkForUpdates pf api (YouTubeSource yst) channelId lastSeenItemId)
        = Some (Inr (rev (concat (map items pages)))))"
proof (intro conjI impI)
  assume "fetchAndParseFeed pf st feedUrl = Inr fd"
    and "lastSeenItemId \<notin> guid ` set (feed_episodes fd)"
  then show "map_option fst (checkForUpdates pf api (PodcastSource st) feedUrl lastSeenItemId)
        = Some (Inr (rev (map (\<lambda>ep. mapEpisode ep fd) (feed_episodes fd))))"
    by (simp add: checkForUpdates_podcast podcast_fetchUpdatesSince_result takeWhile_all)
next
  assume "youtube_listing api channelId yst None pages"
    and "lastSeenItemId \<notin> item_id ` set (concat (map items pages))"
  then show "map_option fst (checkForUpdates pf api (YouTubeSource yst) channelId lastSeenItemId)
        = Some (Inr (rev (concat (map items pages))))"
    using youtube_pages_listing [of api channelId yst None pages lastSeenItemId "[]"]
    by (simp add: checkForUpdates_youtube takeWhile_all)
qed

theorem checkForUpdates_marker_absent_witness:
  "fetchAndParseFeed (sample_platform sample_items) empty_podcast ''feed.xml''
     = Inr (sample_feed sample_episodes)
   \<and> ''nonexistent-id'' \<notin> guid ` set (feed_episodes (sample_feed sample_episodes))
   \<and> map_option (map_sum id (map item_id) \<circ> fst)
        (checkForUpdates (sample_platform sample_items) two_page_api
           (PodcastSource empty_podcast) ''feed.xml'' ''nonexistent-id'')
       = Some (Inr [''ep-1'', ''ep-2'', ''ep-3''])
   \<and> youtube_listing two_page_api ''UC789'' signed_in None [page_one, page_two]
   \<and> ''nonexistent-id'' \<notin> item_id ` set (concat (map items [page_one, page_two]))
   \<and> map_option (map_sum id (map item_id) \<circ> fst)
        (checkForUpdates (sample_platform sample_items) two_page_api
           (YouTubeSource signed_in) ''UC789'' ''nonexistent-id'')
       = Some (Inr [''vid-1'', ''vid-2'', ''vid-3'', ''vid-4''])"
proof -
  have g: "''nonexistent-id'' \<notin> guid ` set (feed_episodes (sample_feed sample_episodes))"
    by (simp add: sample_feed_def sample_episodes_def sample_episode_def)
  have "item_id ` set (concat (map items [page_one, page_two]))
          = set [''vid-4'', ''vid-3'', ''vid-2'', ''vid-1'']"
    using two_pages_ids by (metis set_map)
  then have v: "''nonexistent-id'' \<notin> item_id ` set (concat (map items [page_one, page_two]))"
    by simp
  have e: "feed_episodes (sample_feed sample_episodes) = sample_episodes"
    by (simp add: sample_feed_def)
  note c = checkForUpdates_marker_absent [of "sample_platform sample_items" empty_podcast
        "''feed.xml''" "sample_feed sample_episodes" "''nonexistent-id''" two_page_api
        "''UC789''" signed_in "[page_one, page_two]"]
  from c fetch_sample g
  have p: "map_option fst (checkForUpdates (sample_platform sample_items) two_page_api
             (PodcastSource empty_podcast) ''feed.xml'' ''nonexistent-id'')
           = Some (Inr (rev (map (\<lambda>ep. mapEpisode ep (sample_feed sample_episodes))
                               sample_episodes)))"
    unfolding e by blast
  from c listing_two_pages v
  have y: "map_option fst (checkForUpdates (sample_platform sample_items) two_page_api
             (YouTubeSource signed_in) ''UC789'' ''nonexistent-id'')
           = Some (Inr (rev (concat (map items [page_one, page_two]))))"
    by blast
  have p': "map_option (map_sum id (map item_id) \<circ> fst)
              (checkForUpdates (sample_platform sample_items) two_page_api
                 (PodcastSource empty_podcast) ''feed.xml'' ''nonexistent-id'')
            = Some (Inr [''ep-1'', ''ep-2'', ''ep-3''])"
    using arg_cong [OF p, of "map_option (map_sum id (map item_id))"]
    by (simp add: option.map_comp rev_map [symmetric] sample_ids comp_def)
  have y': "map_option (map_sum id (map item_id) \<circ> fst)
              (checkForUpdates (sample_platform sample_items) two_page_api
                 (YouTubeSource signed_in) ''UC789'' ''nonexistent-id'')
            = Some (Inr [''vid-1'', ''vid-2'', ''vid-3'', ''vid-4''])"
    using arg_cong [OF y, of "map_option (map_sum id (map item_id))"]
    by (simp add: option.map_comp rev_map [symmetric] two_pages_ids comp_def
        del: map_concat map_append concat.simps list.map)
  show ?thesis using fetch_sample g listing_two_pages v p' y' by blast
qed

text \<open>
  C1, as stated, fails on the feed of the repository's tests: with a marker that no
  episode carries, all three episodes come back.
\<close>

theorem checkForUpdates_marker_absent_counterexample:
  "map_option (map_sum id (map item_id) \<circ> fst)
     (checkForUpdates (sample_platform sample_items) silent_api
        (PodcastSource empty_podcast) ''feed.xml'' ''nonexistent-id'')
     = Some (Inr [''ep-1'', ''ep-2'', ''ep-3''])"
  by (simp add: checkForUpdates_podcast podcast_fetchUpdatesSince_result [OF fetch_sample]
      sample_feed_def sample_episodes_def sample_episode_def mapEpisode_def)

section \<open>The order of the result\<close>










section \<open>What a check changes\<close>

lemma fetchAndParseFeed_proxy:
  "corsProxyUrl st' = corsProxyUrl st
   \<Longrightarrow> fetchAndParseFeed pf st' feedUrl = fetchAndParseFeed pf st feedUrl"
  by (simp add: fetchAndParseFeed_def)

lemma map_of_update_other:
  "u \<noteq> k \<Longrightarrow> map_of (AList.update k v al) u = map_of al u"
  by (simp add: update_conv')

lemma map_of_update_same: "map_of (AList.update k v al) k = Some v"
  by (simp add: update_conv')

text \<open>
  C9. A call \<open>PodcastSource.checkForUpdates(feedUrl, marker)\<close> fetches the feed again and
  stores the freshly parsed feed under \<open>feedUrl\<close>; the entry of every other feed URL is
  unchanged, and so is the proxy setting.  When the fetch or the parse fails, the call
  fails with that error and the adapter is unchanged.
\<close>

theorem checkForUpdates_frame:
  "\<exists>r st'. checkForUpdates pf api (PodcastSource st) feedUrl marker
              = Some (r, PodcastSource st')
     \<and> corsProxyUrl st' = corsProxyUrl st
     \<and> (\<forall>u. u \<noteq> feedUrl \<longrightarrow> map_of (feeds st') u = map_of (feeds st) u)
     \<and> (case fetchAndParseFeed pf st feedUrl of
          Inr fd \<Rightarrow> map_of (feeds st') feedUrl = Some fd
        | Inl e \<Rightarrow> r = Inl e \<and> st' = st)"
proof (cases "fetchAndParseFeed pf st feedUrl")
  case (Inl e)
  then show ?thesis
    by (simp add: checkForUpdates_podcast podcast_fetchUpdatesSince_error)
next
  case (Inr fd)
  then show ?thesis
    by (simp add: checkForUpdates_podcast podcast_fetchUpdatesSince_result
        map_of_update_other map_of_update_same)
qed

theorem checkForUpdates_frame_witness:
  "\<exists>r st'. checkForUpdates (sample_platform sample_items) silent_api
              (PodcastSource \<lparr> feeds = [(''other.xml'', sample_feed [])], corsProxyUrl = None \<rparr>)
              ''feed.xml'' ''ep-2''
              = Some (r, PodcastSource st')
     \<and> ''other.xml'' \<noteq> ''feed.xml''
     \<and> map_of (feeds st') ''other.xml'' = Some (sample_feed [])
     \<and> map_of (feeds st') ''feed.xml'' = Some (sample_feed sample_episodes)"
proof -
  let ?st = "\<lparr> feeds = [(''other.xml'', sample_feed [])], corsProxyUrl = None \<rparr>"
  have f: "fetchAndParseFeed (sample_platform sample_items) ?st ''feed.xml''
             = Inr (sample_feed sample_episodes)"
    using fetchAndParseFeed_proxy [of ?st empty_podcast] fetch_sample
    by (simp add: empty_podcast_def)
  obtain r st' where
    c: "checkForUpdates (sample_platform sample_items) silent_api (PodcastSource ?st)
          ''feed.xml'' ''ep-2'' = Some (r, PodcastSource st')"
    and o: "\<forall>u. u \<noteq> ''feed.xml'' \<longrightarrow> map_of (feeds st') u = map_of (feeds ?st) u"
    and n: "case fetchAndParseFeed (sample_platform sample_items) ?st ''feed.xml'' of
              Inr fd \<Rightarrow> map_of (feeds st') ''feed.xml'' = Some fd
            | Inl e \<Rightarrow> r = Inl e \<and> st' = ?st"
    using checkForUpdates_frame [of "sample_platform sample_items" silent_api ?st
        "''feed.xml''" "''ep-2''"]
    by blast
  have d: "''other.xml'' \<noteq> ''feed.xml''" by simp
  from o d have "map_of (feeds st') ''other.xml'' = Some (sample_feed [])" by simp
  moreover from n f have "map_of (feeds st') ''feed.xml'' = Some (sample_feed sample_episodes)"
    by simp
  ultimately show ?thesis using c d by blast
qed

section \<open>Two checks in succession\<close>

lemma podcast_fetchUpdatesSince_twice:
  assumes "podcast_fetchUpdatesSince pf st feedUrl marker = (r, st')"
  shows "podcast_fetchUpdatesSince pf st' feedUrl marker = (r, st')"
proof (cases "fetchAndParseFeed pf st feedUrl")
  case (Inl e)
  with assms show ?thesis by (simp add: podcast_fetchUpdatesSince_error)
next
  case (Inr fd)
  with assms have st': "st' = st\<lparr>feeds := AList.update feedUrl fd (feeds st)\<rparr>"
    and r: "r = Inr (rev (map (\<lambda>ep. mapEpisode ep fd)
                            (takeWhile (\<lambda>ep. guid ep \<noteq> marker) (feed_episodes fd))))"
    by (simp_all add: podcast_fetchUpdatesSince_result)
  have "fetchAndParseFeed pf st' feedUrl = Inr fd"
    using Inr fetchAndParseFeed_proxy [of st' st pf feedUrl] by (simp add: st')
  then show ?thesis
    by (simp add: podcast_fetchUpdatesSince_result r) (simp add: st')
qed

lemma getUploadsPlaylistId_cached:
  "uploadsPlaylistCache st channelId = Some c \<Longrightarrow> c \<noteq> []
   \<Longrightarrow> getUploadsPlaylistId api st channelId = (Inr c, st)"
  by (simp add: getUploadsPlaylistId_def)

lemma getUploadsPlaylistId_resolve:
  "uploadsPlaylistCache st channelId = None \<or> uploadsPlaylistCache st channelId = Some []
   \<Longrightarrow> getUploadsPlaylistId api st channelId
       = (case youtube_fetchApi st (\<lambda>token. channels api token channelId) of
            Inl e \<Rightarrow> (Inl e, st)
          | Inr [] \<Rightarrow> (Inl (ChannelNotFound channelId), st)
          | Inr (uploadsId # _) \<Rightarrow>
              (Inr uploadsId,
               st\<lparr>uploadsPlaylistCache :=
                    (uploadsPlaylistCache st)(channelId \<mapsto> uploadsId)\<rparr>))"
  by (auto simp: getUploadsPlaylistId_def)

lemma getUploadsPlaylistId_twice:
  assumes "getUploadsPlaylistId api st channelId = (r, st')"
  shows "getUploadsPlaylistId api st' channelId = (r, st')"
proof (cases "\<exists>c. uploadsPlaylistCache st channelId = Some c \<and> c \<noteq> []")
  case True
  then obtain c where c: "uploadsPlaylistCache st channelId = Some c" "c \<noteq> []" by blast
  from assms getUploadsPlaylistId_cached [OF c] have "r = Inr c" "st' = st" by simp_all
  with getUploadsPlaylistId_cached [OF c] show ?thesis by simp
next
  case False
  then have miss: "uploadsPlaylistCache st channelId = None
      \<or> uploadsPlaylistCache st channelId = Some []"
    by (cases "uploadsPlaylistCache st channelId") auto
  note first = getUploadsPlaylistId_resolve [OF miss, of api]
  show ?thesis
  proof (cases "youtube_fetchApi st (\<lambda>token. channels api token channelId)")
    case (Inl e)
    with assms first have "r = Inl e" "st' = st" by simp_all
    with assms show ?thesis by simp
  next
    case (Inr ups)
    show ?thesis
    proof (cases ups)
      case Nil
      with assms first Inr have "r = Inl (ChannelNotFound channelId)" "st' = st" by simp_all
      with assms show ?thesis by simp
    next
      case (Cons u rest)
      with assms first Inr have r: "r = Inr u"
        and st': "st' = st\<lparr>uploadsPlaylistCache := (uploadsPlaylistCache st)(channelId \<mapsto> u)\<rparr>"
        by simp_all
      have cache: "uploadsPlaylistCache st' channelId = Some u" by (simp add: st')
      have api': "youtube_fetchApi st' (\<lambda>token. channels api token channelId) = Inr (u # rest)"
        using Inr Cons by (simp add: st' youtube_fetchApi_def)
      have same: "st'\<lparr>uploadsPlaylistCache := (uploadsPlaylistCache st')(channelId \<mapsto> u)\<rparr> = st'"
        by (simp add: st')
      show ?thesis
      proof (cases "u = []")
        case True
        with cache have "uploadsPlaylistCache st' channelId = None
            \<or> uploadsPlaylistCache st' channelId = Some []" by simp
        from getUploadsPlaylistId_resolve [OF this, of api] api' same r show ?thesis by simp
      next
        case False
        from getUploadsPlaylistId_cached [OF cache False] r show ?thesis by simp
      qed
    qed
  qed
qed

lemma youtube_getCollectionItems_state:
  "snd (youtube_getCollectionItems api st channelId opts)
     = snd (getUploadsPlaylistId api st channelId)"
  by (auto simp: youtube_getCollectionItems_def Let_def split: prod.splits sum.splits)

lemma youtube_fetchApi_token:
  "yt_accessToken st' = yt_accessToken st \<Longrightarrow> youtube_fetchApi st' rq = youtube_fetchApi st rq"
  by (simp add: youtube_fetchApi_def)

lemma youtube_getCollectionItems_twice:
  assumes "youtube_getCollectionItems api st channelId opts = (r, st')"
  shows "youtube_getCollectionItems api st' channelId opts = (r, st')"
proof -
  obtain ru su where u: "getUploadsPlaylistId api st channelId = (ru, su)"
    by (cases "getUploadsPlaylistId api st channelId")
  from assms u have s: "st' = su"
    using youtube_getCollectionItems_state [of api st channelId opts] by simp
  have u': "getUploadsPlaylistId api st' channelId = (ru, st')"
    using getUploadsPlaylistId_twice [OF u] s by simp
  show ?thesis
    using assms u u' s by (simp add: youtube_getCollectionItems_def)
qed

lemma youtube_getCollectionItems_settled:
  assumes "youtube_getCollectionItems api st channelId opts = (r, st')"
  shows "snd (youtube_getCollectionItems api st' channelId opts') = st'"
proof -
  obtain ru su where u: "getUploadsPlaylistId api st channelId = (ru, su)"
    by (cases "getUploadsPlaylistId api st channelId")
  from assms u have s: "st' = su"
    using youtube_getCollectionItems_state [of api st channelId opts] by simp
  have "getUploadsPlaylistId api st' channelId = (ru, st')"
    using getUploadsPlaylistId_twice [OF u] s by simp
  then show ?thesis by (simp add: youtube_getCollectionItems_state)
qed

lemma youtube_pages_step:
  assumes "youtube_getCollectionItems api st channelId
             (Some \<lparr> limit = Some 20, cursor = cur \<rparr>) = (res, st1)"
  shows "youtube_pages api channelId marker st cur acc
           = (case res of
                Inl e \<Rightarrow> Some (Inl e, st1)
              | Inr page \<Rightarrow>
                  if marker \<notin> item_id ` set (items page) \<and> truthy (nextCursor page)
                  then youtube_pages api channelId marker st1 (nextCursor page)
                         (acc @ items page)
                  else Some (Inr (rev (acc @ takeWhile (\<lambda>i. item_id i \<noteq> marker)
                                               (items page))), st1))"
  by (subst youtube_pages.simps)
     (simp add: assms scan_page_takeWhile takeWhile_all split: sum.splits)

lemma youtube_pages_state:
  assumes "youtube_pages api channelId marker st cur acc = Some y"
  shows "(\<forall>opts. snd (youtube_getCollectionItems api st channelId opts) = st) \<longrightarrow> snd y = st"
proof (rule youtube_pages.raw_induct
    [where P = "\<lambda>api channelId marker st cur acc y.
         (\<forall>opts. snd (youtube_getCollectionItems api st channelId opts) = st) \<longrightarrow> snd y = st",
     OF _ assms])
  fix walk :: "YouTubeApi \<Rightarrow> string \<Rightarrow> string \<Rightarrow> YouTubeState \<Rightarrow> string option \<Rightarrow> MediaItem list
     \<Rightarrow> ((error + MediaItem list) \<times> YouTubeState) option"
  fix api channelId marker st cur acc y
  assume IH: "\<And>api channelId marker st cur acc y. walk api channelId marker st cur acc = Some y
     \<Longrightarrow> (\<forall>opts. snd (youtube_getCollectionItems api st channelId opts) = st) \<longrightarrow> snd y = st"
  assume eq: "(case youtube_getCollectionItems api st channelId
             (Some \<lparr> limit = Some 20, cursor = cur \<rparr>) of
        (Inl e, st') \<Rightarrow> Some (Inl e, st')
      | (Inr page, st') \<Rightarrow>
          (case scan_page marker (items page) acc of
             (found, allNew') \<Rightarrow>
               if \<not> found \<and> truthy (nextCursor page)
               then walk api channelId marker st' (nextCursor page) allNew'
               else Some (Inr (rev allNew'), st'))) = Some y"
  show "(\<forall>opts. snd (youtube_getCollectionItems api st channelId opts) = st) \<longrightarrow> snd y = st"
  proof
    assume stable: "\<forall>opts. snd (youtube_getCollectionItems api st channelId opts) = st"
    obtain res st1 where g: "youtube_getCollectionItems api st channelId
        (Some \<lparr> limit = Some 20, cursor = cur \<rparr>) = (res, st1)"
      by (cases "youtube_getCollectionItems api st channelId
        (Some \<lparr> limit = Some 20, cursor = cur \<rparr>)")
    from stable have "snd (youtube_getCollectionItems api st channelId
        (Some \<lparr> limit = Some 20, cursor = cur \<rparr>)) = st" by blast
    with g have st1: "st1 = st" by simp
    show "snd y = st"
    proof (cases res)
      case (Inl e)
      from eq show ?thesis unfolding g Inl st1 by auto
    next
      case (Inr page)
      show ?thesis
      proof (cases "marker \<notin> item_id ` set (items page) \<and> truthy (nextCursor page)")
        case True
        from eq
        have "walk api channelId marker st (nextCursor page)
                (acc @ takeWhile (\<lambda>i. item_id i \<noteq> marker) (items page)) = Some y"
          unfolding g Inr st1 using True by (simp add: scan_page_takeWhile)
        from IH [OF this] stable show ?thesis by blast
      next
        case False
        from eq show ?thesis unfolding g Inr st1 using False
          by (auto simp: scan_page_takeWhile)
      qed
    qed
  qed
qed
lemma youtube_pages_twice:
  assumes "youtube_pages api channelId marker st cur acc = Some (r, s)"
  shows "youtube_pages api channelId marker s cur acc = Some (r, s)"
proof -
  let ?opts = "Some \<lparr> limit = Some 20, cursor = cur \<rparr>"
  obtain res st1 where g: "youtube_getCollectionItems api st channelId ?opts = (res, st1)"
    by (cases "youtube_getCollectionItems api st channelId ?opts")
  have g': "youtube_getCollectionItems api st1 channelId ?opts = (res, st1)"
    by (rule youtube_getCollectionItems_twice [OF g])
  have stable: "\<forall>opts. snd (youtube_getCollectionItems api st1 channelId opts) = st1"
    using youtube_getCollectionItems_settled [OF g] by simp
  note first = youtube_pages_step [OF g, of marker acc]
  note second = youtube_pages_step [OF g', of marker acc]
  show ?thesis
  proof (cases res)
    case (Inl e)
    with assms first have "r = Inl e" "s = st1" by simp_all
    with second Inl show ?thesis by simp
  next
    case (Inr page)
    show ?thesis
    proof (cases "marker \<notin> item_id ` set (items page) \<and> truthy (nextCursor page)")
      case True
      with assms first Inr
      have w: "youtube_pages api channelId marker st1 (nextCursor page) (acc @ items page)
                 = Some (r, s)"
        by simp
      from youtube_pages_state [OF w] stable have s: "s = st1" by simp
      from w s second Inr True show ?thesis by simp
    next
      case False
      with assms first Inr
      have "r = Inr (rev (acc @ takeWhile (\<lambda>i. item_id i \<noteq> marker) (items page)))" "s = st1"
        by auto
      with second Inr False show ?thesis by auto
    qed
  qed
qed

text \<open>
  C5, as the code has it.  \<open>checkForUpdates\<close> does not advance the marker: it is an
  argument of the call.  Called twice in immediate succession with the same
  \<open>collectionId\<close> and the same \<open>lastSeenItemId\<close>, against the same feed document or
  API answers, the second call has the same outcome as the first and leaves the adapter
  as the first call left it.  The second result is therefore empty exactly when the first
  one was.
\<close>

theorem checkForUpdates_twice:
  assumes "checkForUpdates pf api src collectionId lastSeenItemId = Some (r, src')"
  shows "checkForUpdates pf api src' collectionId lastSeenItemId = Some (r, src')"
proof (cases src)
  case (SpotifySource sp)
  with assms show ?thesis by (auto simp: checkForUpdates_def)
next
  case (YouTubeSource yt)
  with assms obtain yt' where
    s: "src' = YouTubeSource yt'"
    and w: "youtube_pages api collectionId lastSeenItemId yt None [] = Some (r, yt')"
    by (auto simp: checkForUpdates_def youtube_fetchUpdatesSince_def)
  from youtube_pages_twice [OF w] s show ?thesis
    by (simp add: checkForUpdates_def youtube_fetchUpdatesSince_def)
next
  case (PodcastSource pc)
  with assms obtain pc' where
    s: "src' = PodcastSource pc'"
    and w: "podcast_fetchUpdatesSince pf pc collectionId lastSeenItemId = (r, pc')"
    by (auto simp: checkForUpdates_def split: prod.splits)
  from podcast_fetchUpdatesSince_twice [OF w] s show ?thesis
    by (simp add: checkForUpdates_def)
qed

lemma sample_first_check:
  "checkForUpdates (sample_platform sample_items) silent_api (PodcastSource empty_podcast)
     ''feed.xml'' ''ep-2''
     = Some (Inr [mapEpisode (hd sample_episodes) (sample_feed sample_episodes)],
             PodcastSource sample_stored)"
  by (simp add: checkForUpdates_podcast podcast_fetchUpdatesSince_result [OF fetch_sample])
     (simp add: sample_feed_def sample_episodes_def sample_episode_def sample_stored_def
        empty_podcast_def)

theorem checkForUpdates_twice_witness:
  "checkForUpdates (sample_platform sample_items) silent_api (PodcastSource empty_podcast)
     ''feed.xml'' ''ep-2''
     = Some (Inr [mapEpisode (hd sample_episodes) (sample_feed sample_episodes)],
             PodcastSource sample_stored)
   \<and> checkForUpdates (sample_platform sample_items) silent_api (PodcastSource sample_stored)
       ''feed.xml'' ''ep-2''
     = Some (Inr [mapEpisode (hd sample_episodes) (sample_feed sample_episodes)],
             PodcastSource sample_stored)"
  using checkForUpdates_twice [OF sample_first_check] sample_first_check by simp

text \<open>
  C5, as stated, fails on the feed of the repository's tests: with the marker \<open>ep-2\<close>
  the first call returns \<open>ep-3\<close> and stores the feed, and the second call, made on the
  adapter as the first call left it, returns \<open>ep-3\<close> again.
\<close>

theorem checkForUpdates_twice_counterexample:
  "map_option (map_prod (map_sum id (map item_id)) id)
     (checkForUpdates (sample_platform sample_items) silent_api (PodcastSource empty_podcast)
        ''feed.xml'' ''ep-2'')
     = Some (Inr [''ep-3''], PodcastSource sample_stored)
   \<and> map_option (map_prod (map_sum id (map item_id)) id)
     (checkForUpdates (sample_platform sample_items) silent_api (PodcastSource sample_stored)
        ''feed.xml'' ''ep-2'')
     = Some (Inr [''ep-3''], PodcastSource sample_stored)"
proof -
  have f: "fetchAndParseFeed (sample_platform sample_items) sample_stored ''feed.xml''
             = Inr (sample_feed sample_episodes)"
    using fetchAndParseFeed_proxy [of sample_stored empty_podcast] fetch_sample
    by (simp add: empty_podcast_def sample_stored_def)
  have 1: "map_option (map_prod (map_sum id (map item_id)) id)
     (checkForUpdates (sample_platform sample_items) silent_api (PodcastSource empty_podcast)
        ''feed.xml'' ''ep-2'')
     = Some (Inr [''ep-3''], PodcastSource sample_stored)"
    by (simp add: checkForUpdates_podcast podcast_fetchUpdatesSince_result [OF fetch_sample])
       (simp add: sample_feed_def sample_episodes_def sample_episode_def sample_stored_def
          empty_podcast_def mapEpisode_def)
  have 2: "map_option (map_prod (map_sum id (map item_id)) id)
     (checkForUpdates (sample_platform sample_items) silent_api (PodcastSource sample_stored)
        ''feed.xml'' ''ep-2'')
     = Some (Inr [''ep-3''], PodcastSource sample_stored)"
    by (simp add: checkForUpdates_podcast podcast_fetchUpdatesSince_result [OF f])
       (simp add: sample_feed_def sample_episodes_def sample_episode_def sample_stored_def
          mapEpisode_def)
  from 1 2 show ?thesis by blast
qed

section \<open>The length of the page walk\<close>








section \<open>The duration of a parsed episode\<close>

lemma parseRssItem_duration:
  assumes "parseRssItem pf item = Inr (Some ep)"
  shows "ep_duration ep
           = (case getElementByTagNameNS_duration item of
                None \<Rightarrow> None
              | Some text \<Rightarrow> if text = [] then None else Some (parseDuration text))"
  using assms
  by (auto simp: parseRssItem_def Let_def truthy_def
      split: option.splits if_splits)

lemma parseDuration_fallthrough:
  assumes "js_trim text = [] \<or> \<not> list_all is_digit (js_trim text)"
    and "length (js_split (CHR '':'') (js_trim text)) \<noteq> 2"
    and "length (js_split (CHR '':'') (js_trim text)) \<noteq> 3"
  shows "parseDuration text = Num 0"
  using assms by (auto simp: parseDuration_def Let_def)

lemma parseDuration_zero: "parseDuration ''0'' = Num 0"
  by (simp add: parseDuration_def js_trim_def is_js_space_def is_digit_def
      dec_value_def digit_val_def js_parseInt_def js_int_def)

text \<open>
  C6, as the code has it.  The duration of a parsed episode is absent only when the item
  has no duration element or the element's text is empty.  For every non-empty duration
  text the duration is present: it is what \<open>parseDuration\<close> returns, and that is 0 (not
  absent) when the trimmed text is not a string of digits and does not split at colons
  into exactly two or three fields.  The literal \<open>0\<close> yields 0.
\<close>

theorem parsed_duration_present:
  assumes "parseRssItem pf item = Inr (Some ep)"
  shows "(getElementByTagNameNS_duration item = None \<longrightarrow> ep_duration ep = None)
       \<and> (getElementByTagNameNS_duration item = Some [] \<longrightarrow> ep_duration ep = None)
       \<and> (\<forall>text. getElementByTagNameNS_duration item = Some text \<and> text \<noteq> [] \<longrightarrow>
             ep_duration ep = Some (parseDuration text)
             \<and> ((js_trim text = [] \<or> \<not> list_all is_digit (js_trim text))
                 \<and> length (js_split (CHR '':'') (js_trim text)) \<noteq> 2
                 \<and> length (js_split (CHR '':'') (js_trim text)) \<noteq> 3
                 \<longrightarrow> ep_duration ep = Some (Num 0)))
       \<and> parseDuration ''0'' = Num 0"
  using parseRssItem_duration [OF assms] parseDuration_fallthrough parseDuration_zero
  by auto

lemma parse_soon:
  "parseRssItem (sample_platform sample_items)
     (sample_item ''ep-4'' ''Episode 4'' ''Wed, 03 Jul 2024 12:00:00 GMT''
        ''https://example.com/ep4.mp3'' ''soon'')
     = Inr (Some (sample_episode ''ep-4'' ''Episode 4'' ''2024-07-03T12:00:00.000Z''
                    ''https://example.com/ep4.mp3'' 0))"
  by (simp add: parseRssItem_def getElementByTagNameNS_duration_def truthy_def
      sample_item_def sample_platform_def sample_dates_def sample_episode_def
      parseDuration_def js_trim_def is_js_space_def is_digit_def)

theorem parsed_duration_present_witness:
  "parseRssItem (sample_platform sample_items)
     (sample_item ''ep-4'' ''Episode 4'' ''Wed, 03 Jul 2024 12:00:00 GMT''
        ''https://example.com/ep4.mp3'' ''soon'')
     = Inr (Some (sample_episode ''ep-4'' ''Episode 4'' ''2024-07-03T12:00:00.000Z''
                    ''https://example.com/ep4.mp3'' 0))
   \<and> getElementByTagNameNS_duration
        (sample_item ''ep-4'' ''Episode 4'' ''Wed, 03 Jul 2024 12:00:00 GMT''
           ''https://example.com/ep4.mp3'' ''soon'') = Some ''soon''
   \<and> ''soon'' \<noteq> []
   \<and> \<not> list_all is_digit (js_trim ''soon'')
   \<and> length (js_split (CHR '':'') (js_trim ''soon'')) = 1
   \<and> ep_duration (sample_episode ''ep-4'' ''Episode 4'' ''2024-07-03T12:00:00.000Z''
                     ''https://example.com/ep4.mp3'' 0) = Some (parseDuration ''soon'')
   \<and> parseDuration ''soon'' = Num 0"
proof -
  have d: "getElementByTagNameNS_duration
        (sample_item ''ep-4'' ''Episode 4'' ''Wed, 03 Jul 2024 12:00:00 GMT''
           ''https://example.com/ep4.mp3'' ''soon'') = Some ''soon''"
    by (simp add: getElementByTagNameNS_duration_def sample_item_def)
  have t: "js_trim ''soon'' = ''soon''"
    by (simp add: js_trim_def is_js_space_def)
  have nd: "\<not> list_all is_digit (js_trim ''soon'')"
    unfolding t by (simp add: is_digit_def)
  have len: "length (js_split (CHR '':'') (js_trim ''soon'')) = 1"
    unfolding t by simp
  from parsed_duration_present [OF parse_soon] d nd len
  have "ep_duration (sample_episode ''ep-4'' ''Episode 4'' ''2024-07-03T12:00:00.000Z''
                     ''https://example.com/ep4.mp3'' 0) = Some (parseDuration ''soon'')"
    and "ep_duration (sample_episode ''ep-4'' ''Episode 4'' ''2024-07-03T12:00:00.000Z''
                     ''https://example.com/ep4.mp3'' 0) = Some (Num 0)"
    by auto
  then show ?thesis using parse_soon d nd len by auto
qed

text \<open>
  C6, as stated, fails on an item whose duration text is \<open>abc\<close>, which is none of the
  three encodings: the episode's duration is 0, not absent.
\<close>

theorem parsed_duration_present_counterexample:
  "map_sum id (map_option ep_duration)
     (parseRssItem (sample_platform sample_items)
        (sample_item ''ep-4'' ''Episode 4'' ''Wed, 03 Jul 2024 12:00:00 GMT''
           ''https://example.com/ep4.mp3'' ''abc''))
     = Inr (Some (Some (Num 0)))"
  by (simp add: parseRssItem_def getElementByTagNameNS_duration_def truthy_def
      sample_item_def sample_platform_def sample_dates_def
      parseDuration_def js_trim_def is_js_space_def is_digit_def)

section \<open>Pagination of the podcast listings\<close>

lemma js_slice_map: "map f (js_slice xs start end) = js_slice (map f xs) start end"
  by (simp add: js_slice_def Let_def take_map drop_map)

lemma podcast_getAvailableMedia_paginate:
  "podcast_getAvailableMedia st options
     = paginate (map mapFeedToCollection (map snd (feeds st))) (option_offset options)
         (option_limit options (int (length (feeds st))))"
  by (simp add: podcast_getAvailableMedia_def paginate_def Let_def js_slice_map
      del: map_map)

lemma podcast_getCollectionItems_paginate:
  "podcast_getCollectionItems pf st collectionId options
     = (case (case map_of (feeds st) collectionId of
                Some fd \<Rightarrow> (Inr fd, st)
              | None \<Rightarrow> refreshFeed pf st collectionId) of
          (Inl e, st') \<Rightarrow> (Inl e, st')
        | (Inr fd, st') \<Rightarrow>
            (Inr (paginate (map (\<lambda>ep. mapEpisode ep fd) (feed_episodes fd))
                    (option_offset options) (option_limit options 20)), st'))"
  by (simp add: podcast_getCollectionItems_def refreshFeed_def paginate_def Let_def
      js_slice_map split: option.splits sum.splits)

lemma digit_val_digit_char: "d < 10 \<Longrightarrow> digit_val (digit_char d) = int d"
  by (simp add: digit_val_def digit_char_def)

lemma is_digit_digit_char: "d < 10 \<Longrightarrow> is_digit (digit_char d)"
  by (simp add: is_digit_def digit_char_def)

lemma dec_value_snoc: "dec_value (ds @ [c]) = 10 * dec_value ds + digit_val c"
  by (simp add: dec_value_def)

lemma string_of_nat_digits: "list_all is_digit (string_of_nat n) \<and> string_of_nat n \<noteq> []"
proof (induction n rule: string_of_nat.induct)
  case (1 n)
  show ?case
  proof (cases "n < 10")
    case True
    then show ?thesis
      by (subst (1 2) string_of_nat.simps) (simp add: is_digit_digit_char)
  next
    case False
    with 1 show ?thesis
      by (subst (1 2) string_of_nat.simps) (simp add: is_digit_digit_char)
  qed
qed

lemma dec_value_string_of_nat: "dec_value (string_of_nat n) = int n"
proof (induction n rule: string_of_nat.induct)
  case (1 n)
  show ?case
  proof (cases "n < 10")
    case True
    then show ?thesis
      by (subst string_of_nat.simps) (simp add: dec_value_def digit_val_digit_char)
  next
    case False
    with 1 have "dec_value (string_of_nat (n div 10)) = int (n div 10)" by simp
    with False show ?thesis
      by (subst string_of_nat.simps)
         (simp add: dec_value_snoc digit_val_digit_char zdiv_int zmod_int)
  qed
qed

lemma js_parseInt_js_String: "0 \<le> k \<Longrightarrow> js_parseInt (js_String k) = Some k"
  using js_parseInt_digits [of "string_of_nat (nat k)"] string_of_nat_digits [of "nat k"]
  by (simp add: js_String_def dec_value_string_of_nat)

lemma option_offset_none [simp]: "option_offset (Some \<lparr> limit = lim, cursor = None \<rparr>) = Some 0"
  by (simp add: option_offset_def)

lemma option_offset_js_String:
  "0 \<le> k \<Longrightarrow> option_offset (Some \<lparr> limit = lim, cursor = Some (js_String k) \<rparr>) = Some k"
  using string_of_nat_digits [of "nat k"]
  by (simp add: option_offset_def js_parseInt_js_String) (simp add: js_String_def)

lemma option_limit_some [simp]:
  "option_limit (Some \<lparr> limit = lim, cursor = c \<rparr>) dflt = (case lim of None \<Rightarrow> dflt | Some l \<Rightarrow> l)"
  by (simp add: option_limit_def)

lemma paginate_items:
  assumes "0 \<le> off" "0 \<le> L"
  shows "items (paginate xs (Some off) L) = take (nat L) (drop (nat off) xs)"
proof (cases "off \<le> int (length xs)")
  case True
  have "take (nat (min (off + L) (int (length xs)) - off)) (drop (nat off) xs)
          = take (nat L) (drop (nat off) xs)"
  proof (cases "off + L \<le> int (length xs)")
    case True
    then show ?thesis by (simp add: min_def)
  next
    case False
    with \<open>off \<le> int (length xs)\<close> assms show ?thesis by (simp add: min_def)
  qed
  with True assms show ?thesis
    by (simp add: paginate_def js_plus_def js_slice_def Let_def min_def)
next
  case False
  with assms show ?thesis
    by (simp add: paginate_def js_plus_def js_slice_def Let_def min_def)
qed

lemma paginate_nextCursor:
  "nextCursor (paginate xs (Some off) L)
     = (if off + L < int (length xs) then Some (js_String (off + L)) else None)"
  by (simp add: paginate_def js_plus_def js_less_def)

lemma paginate_NaN:
  "paginate xs None L = \<lparr> items = [], nextCursor = None, total = Some (int (length xs)) \<rparr>"
  by (simp add: paginate_def js_plus_def js_less_def js_slice_def)

lemma podcast_getCollectionItems_stored:
  "map_of (feeds st) collectionId = Some fd
   \<Longrightarrow> podcast_getCollectionItems pf st collectionId opts
       = (Inr (paginate (map (\<lambda>ep. mapEpisode ep fd) (feed_episodes fd))
                 (option_offset opts) (option_limit opts 20)), st)"
  by (simp add: podcast_getCollectionItems_paginate)

lemma paginated_walk:
  fixes xs :: "'a list" and L :: int
  assumes L: "1 \<le> L \<or> int (length xs) \<le> L"
    and step: "\<And>fuel c. pages_of (Suc fuel) c
        = (let page = paginate xs (option_offset (Some \<lparr> limit = lim, cursor = c \<rparr>)) L
           in case nextCursor page of
                None \<Rightarrow> Some [page]
              | Some c' \<Rightarrow> map_option ((#) page) (pages_of fuel (Some c')))"
  shows "0 \<le> off \<Longrightarrow> option_offset (Some \<lparr> limit = lim, cursor = c \<rparr>) = Some off
     \<Longrightarrow> length xs - nat off < fuel
     \<Longrightarrow> \<exists>pages. pages_of fuel c = Some pages \<and> pages \<noteq> []
           \<and> concat (map items pages) = drop (nat off) xs
           \<and> nextCursor (last pages) = None"
proof (induction fuel arbitrary: off c)
  case 0
  then show ?case by simp
next
  case (Suc fuel)
  let ?page = "paginate xs (Some off) L"
  show ?case
  proof (cases "off + L < int (length xs)")
    case False
    with Suc.prems(1) L have L0: "0 \<le> L" by linarith
    from False have nx: "nextCursor ?page = None" by (simp add: paginate_nextCursor)
    from False Suc.prems(1) have "length (drop (nat off) xs) \<le> nat L" by simp
    then have "items ?page = drop (nat off) xs"
      using paginate_items [OF Suc.prems(1) L0, of xs] by simp
    with nx Suc.prems(2) show ?thesis by (simp add: step)
  next
    case True
    with Suc.prems(1) L have L1: "1 \<le> L" by linarith
    then have L0: "0 \<le> L" by simp
    from True have nx: "nextCursor ?page = Some (js_String (off + L))"
      by (simp add: paginate_nextCursor)
    have off': "0 \<le> off + L" using Suc.prems(1) L0 by simp
    have "length xs - nat (off + L) < fuel" using Suc.prems(1,3) L1 True by linarith
    from Suc.IH [OF off' option_offset_js_String [OF off'] this]
    obtain pages where p: "pages_of fuel (Some (js_String (off + L))) = Some pages"
      and ne: "pages \<noteq> []"
      and cc: "concat (map items pages) = drop (nat (off + L)) xs"
      and lst: "nextCursor (last pages) = None"
      by blast
    have "nat (off + L) = nat L + nat off" using Suc.prems(1) L0 by (simp add: nat_add_distrib)
    then have "concat (map items pages) = drop (nat L) (drop (nat off) xs)"
      using cc by simp
    moreover have "items ?page = take (nat L) (drop (nat off) xs)"
      by (rule paginate_items [OF Suc.prems(1) L0])
    ultimately have "items ?page @ concat (map items pages) = drop (nat off) xs"
      by (simp only: append_take_drop_id)
    with nx p ne lst Suc.prems(2) show ?thesis by (simp add: step)
  qed
qed

lemma paginate_whole:
  "paginate xs (Some 0) (int (length xs))
     = \<lparr> items = xs, nextCursor = None, total = Some (int (length xs)) \<rparr>"
  by (simp add: paginate_def js_plus_def js_less_def js_slice_def)

lemma collectionItems_pages_stored:
  assumes stored: "map_of (feeds st) collectionId = Some fd"
    and lim: "\<forall>L. lim = Some L \<longrightarrow> 1 \<le> L"
    and fuel: "length (feed_episodes fd) < fuel"
  shows "\<exists>pages. collectionItems_pages fuel pf st collectionId lim None = Some (Inr pages)
           \<and> pages \<noteq> []
           \<and> concat (map items pages) = map (\<lambda>ep. mapEpisode ep fd) (feed_episodes fd)
           \<and> nextCursor (last pages) = None"
proof -
  let ?xs = "map (\<lambda>ep. mapEpisode ep fd) (feed_episodes fd)"
  let ?L = "case lim of None \<Rightarrow> 20 | Some l \<Rightarrow> l"
  define pages_of where "pages_of = (\<lambda>fuel c.
      case collectionItems_pages fuel pf st collectionId lim c of
        Some (Inr ps) \<Rightarrow> Some ps
      | _ \<Rightarrow> None)"
  have L: "1 \<le> ?L \<or> int (length ?xs) \<le> ?L"
    using lim by (cases lim) auto
  have step: "pages_of (Suc fuel) c
        = (let page = paginate ?xs (option_offset (Some \<lparr> limit = lim, cursor = c \<rparr>)) ?L
           in case nextCursor page of
                None \<Rightarrow> Some [page]
              | Some c' \<Rightarrow> map_option ((#) page) (pages_of fuel (Some c')))" for fuel c
    by (simp add: pages_of_def podcast_getCollectionItems_stored [OF stored] Let_def
        split: option.splits sum.splits)
  have "length ?xs - nat 0 < fuel" using fuel by simp
  from paginated_walk [where xs = ?xs and L = ?L and pages_of = pages_of and lim = lim
      and off = 0 and c = None and fuel = fuel, OF L step _ _ this]
  obtain pages where "pages_of fuel None = Some pages" and r: "pages \<noteq> []"
    "concat (map items pages) = ?xs" "nextCursor (last pages) = None"
    by auto
  then have "collectionItems_pages fuel pf st collectionId lim None = Some (Inr pages)"
    by (auto simp: pages_of_def split: option.splits sum.splits)
  with r show ?thesis by blast
qed

lemma availableMedia_pages_all:
  assumes lim: "\<forall>L. lim = Some L \<longrightarrow> 1 \<le> L"
    and fuel: "length (feeds st) < fuel"
  shows "\<exists>pages. availableMedia_pages fuel st lim None = Some pages
           \<and> pages \<noteq> []
           \<and> concat (map items pages) = map mapFeedToCollection (map snd (feeds st))
           \<and> nextCursor (last pages) = None"
proof -
  let ?xs = "map mapFeedToCollection (map snd (feeds st))"
  let ?L = "case lim of None \<Rightarrow> int (length (feeds st)) | Some l \<Rightarrow> l"
  have L: "1 \<le> ?L \<or> int (length ?xs) \<le> ?L"
    using lim by (cases lim) auto
  have step: "availableMedia_pages (Suc fuel) st lim c
        = (let page = paginate ?xs (option_offset (Some \<lparr> limit = lim, cursor = c \<rparr>)) ?L
           in case nextCursor page of
                None \<Rightarrow> Some [page]
              | Some c' \<Rightarrow> map_option ((#) page) (availableMedia_pages fuel st lim (Some c')))"
    for fuel c
    by (simp add: podcast_getAvailableMedia_paginate Let_def cong: option.case_cong)
  have "length ?xs - nat 0 < fuel" using fuel by simp
  from paginated_walk [where xs = ?xs and L = ?L
      and pages_of = "\<lambda>fuel. availableMedia_pages fuel st lim" and lim = lim
      and off = 0 and c = None and fuel = fuel, OF L step _ _ this]
  show ?thesis by auto
qed

text \<open>
  C8, as the code has it.  For the listing operations of PodcastSource over a stored feed
  state, with the page size omitted or at least one: the pages obtained by starting
  without a cursor and following each \<open>nextCursor\<close> are finitely many, their
  concatenation is exactly the item list of a single call with \<open>limit = total\<close>, which
  is the whole stored list (every item once, in order), and the final page has no
  \<open>nextCursor\<close>.
\<close>

theorem podcast_pages_concatenate:
  assumes "\<forall>L. lim = Some L \<longrightarrow> 1 \<le> L"
  shows "(map_of (feeds st) collectionId = Some fd \<longrightarrow> length (feed_episodes fd) < fuel \<longrightarrow>
            (\<exists>pages single.
               collectionItems_pages fuel pf st collectionId lim None = Some (Inr pages)
               \<and> podcast_getCollectionItems pf st collectionId
                    (Some \<lparr> limit = Some (int (length (feed_episodes fd))), cursor = None \<rparr>)
                   = (Inr single, st)
               \<and> items single = map (\<lambda>ep. mapEpisode ep fd) (feed_episodes fd)
               \<and> total single = Some (int (length (feed_episodes fd)))
               \<and> nextCursor single = None
               \<and> concat (map items pages) = items single
               \<and> pages \<noteq> [] \<and> nextCursor (last pages) = None))
       \<and> (length (feeds st) < fuel \<longrightarrow>
            (\<exists>pages single.
               availableMedia_pages fuel st lim None = Some pages
               \<and> podcast_getAvailableMedia st
                    (Some \<lparr> limit = Some (int (length (feeds st))), cursor = None \<rparr>) = single
               \<and> items single = map mapFeedToCollection (map snd (feeds st))
               \<and> total single = Some (int (length (feeds st)))
               \<and> nextCursor single = None
               \<and> concat (map items pages) = items single
               \<and> pages \<noteq> [] \<and> nextCursor (last pages) = None))"
proof (intro conjI impI)
  assume stored: "map_of (feeds st) collectionId = Some fd"
    and fuel: "length (feed_episodes fd) < fuel"
  let ?xs = "map (\<lambda>ep. mapEpisode ep fd) (feed_episodes fd)"
  have "podcast_getCollectionItems pf st collectionId
          (Some \<lparr> limit = Some (int (length (feed_episodes fd))), cursor = None \<rparr>)
        = (Inr \<lparr> items = ?xs, nextCursor = None, total = Some (int (length ?xs)) \<rparr>, st)"
    using paginate_whole [of ?xs]
    by (simp add: podcast_getCollectionItems_stored [OF stored])
  with collectionItems_pages_stored [OF stored assms fuel, of pf]
  show "\<exists>pages single.
               collectionItems_pages fuel pf st collectionId lim None = Some (Inr pages)
               \<and> podcast_getCollectionItems pf st collectionId
                    (Some \<lparr> limit = Some (int (length (feed_episodes fd))), cursor = None \<rparr>)
                   = (Inr single, st)
               \<and> items single = map (\<lambda>ep. mapEpisode ep fd) (feed_episodes fd)
               \<and> total single = Some (int (length (feed_episodes fd)))
               \<and> nextCursor single = None
               \<and> concat (map items pages) = items single
               \<and> pages \<noteq> [] \<and> nextCursor (last pages) = None"
    by auto
next
  assume fuel: "length (feeds st) < fuel"
  let ?xs = "map mapFeedToCollection (map snd (feeds st))"
  have "podcast_getAvailableMedia st
          (Some \<lparr> limit = Some (int (length (feeds st))), cursor = None \<rparr>)
        = \<lparr> items = ?xs, nextCursor = None, total = Some (int (length ?xs)) \<rparr>"
    using paginate_whole [of ?xs]
    by (simp add: podcast_getAvailableMedia_paginate)
  with availableMedia_pages_all [OF assms fuel]
  show "\<exists>pages single.
               availableMedia_pages fuel st lim None = Some pages
               \<and> podcast_getAvailableMedia st
                    (Some \<lparr> limit = Some (int (length (feeds st))), cursor = None \<rparr>) = single
               \<and> items single = map mapFeedToCollection (map snd (feeds st))
               \<and> total single = Some (int (length (feeds st)))
               \<and> nextCursor single = None
               \<and> concat (map items pages) = items single
               \<and> pages \<noteq> [] \<and> nextCursor (last pages) = None"
    by auto
qed

theorem podcast_pages_concatenate_witness:
  "map_of (feeds sample_stored) ''feed.xml'' = Some (sample_feed sample_episodes)
   \<and> length (feed_episodes (sample_feed sample_episodes)) < 4
   \<and> length (feeds sample_stored) < 4
   \<and> (\<exists>pages single.
         collectionItems_pages 4 (sample_platform sample_items) sample_stored ''feed.xml''
           (Some 2) None = Some (Inr pages)
         \<and> podcast_getCollectionItems (sample_platform sample_items) sample_stored ''feed.xml''
              (Some \<lparr> limit = Some 3, cursor = None \<rparr>) = (Inr single, sample_stored)
         \<and> map item_id (items single) = [''ep-3'', ''ep-2'', ''ep-1'']
         \<and> concat (map items pages) = items single
         \<and> pages \<noteq> [] \<and> nextCursor (last pages) = None)
   \<and> (\<exists>pages.
         availableMedia_pages 4 sample_stored (Some 2) None = Some pages
         \<and> concat (map items pages)
             = items (podcast_getAvailableMedia sample_stored
                        (Some \<lparr> limit = Some 1, cursor = None \<rparr>))
         \<and> concat (map items pages) = [mapFeedToCollection (sample_feed sample_episodes)]
         \<and> pages \<noteq> [] \<and> nextCursor (last pages) = None)"
proof -
  have h: "\<forall>L. Some (2::int) = Some L \<longrightarrow> 1 \<le> L" by simp
  have s: "map_of (feeds sample_stored) ''feed.xml'' = Some (sample_feed sample_episodes)"
    by (simp add: sample_stored_def)
  have n: "length (feed_episodes (sample_feed sample_episodes)) = 3"
    by (simp add: sample_feed_def sample_episodes_def)
  have m: "length (feeds sample_stored) = 1" by (simp add: sample_stored_def)
  have ids: "map item_id (map (\<lambda>ep. mapEpisode ep (sample_feed sample_episodes))
                            (feed_episodes (sample_feed sample_episodes)))
               = [''ep-3'', ''ep-2'', ''ep-1'']"
    by (simp add: sample_feed_def sample_episodes_def sample_episode_def mapEpisode_def)
  have fs: "map mapFeedToCollection (map snd (feeds sample_stored))
              = [mapFeedToCollection (sample_feed sample_episodes)]"
    by (simp add: sample_stored_def)
  note t = podcast_pages_concatenate [OF h, of sample_stored "''feed.xml''"
      "sample_feed sample_episodes" 4 "sample_platform sample_items"]
  from t s n obtain pages single where
    c: "collectionItems_pages 4 (sample_platform sample_items) sample_stored ''feed.xml''
           (Some 2) None = Some (Inr pages)"
       "podcast_getCollectionItems (sample_platform sample_items) sample_stored ''feed.xml''
              (Some \<lparr> limit = Some 3, cursor = None \<rparr>) = (Inr single, sample_stored)"
       "items single = map (\<lambda>ep. mapEpisode ep (sample_feed sample_episodes))
                         (feed_episodes (sample_feed sample_episodes))"
       "concat (map items pages) = items single"
       "pages \<noteq> []" "nextCursor (last pages) = None"
    by auto
  from c(3) ids have "map item_id (items single) = [''ep-3'', ''ep-2'', ''ep-1'']" by simp
  with c have 1: "\<exists>pages single.
         collectionItems_pages 4 (sample_platform sample_items) sample_stored ''feed.xml''
           (Some 2) None = Some (Inr pages)
         \<and> podcast_getCollectionItems (sample_platform sample_items) sample_stored ''feed.xml''
              (Some \<lparr> limit = Some 3, cursor = None \<rparr>) = (Inr single, sample_stored)
         \<and> map item_id (items single) = [''ep-3'', ''ep-2'', ''ep-1'']
         \<and> concat (map items pages) = items single
         \<and> pages \<noteq> [] \<and> nextCursor (last pages) = None"
    by (intro exI [of _ pages] exI [of _ single] conjI)
  from t m fs have 2: "\<exists>pages.
         availableMedia_pages 4 sample_stored (Some 2) None = Some pages
         \<and> concat (map items pages)
             = items (podcast_getAvailableMedia sample_stored
                        (Some \<lparr> limit = Some 1, cursor = None \<rparr>))
         \<and> concat (map items pages) = [mapFeedToCollection (sample_feed sample_episodes)]
         \<and> pages \<noteq> [] \<and> nextCursor (last pages) = None"
    by auto
  from 1 2 show ?thesis using s n m by simp
qed

lemma page_size_zero_page:
  assumes "cur = None \<or> cur = Some ''0''"
  shows "podcast_getCollectionItems (sample_platform sample_items) sample_stored ''feed.xml''
           (Some \<lparr> limit = Some 0, cursor = cur \<rparr>)
         = (Inr \<lparr> items = [], nextCursor = Some ''0'', total = Some 3 \<rparr>, sample_stored)"
proof -
  have s: "map_of (feeds sample_stored) ''feed.xml'' = Some (sample_feed sample_episodes)"
    by (simp add: sample_stored_def)
  have z: "js_String 0 = ''0''" by code_simp
  have p: "js_parseInt ''0'' = Some 0"
    by (simp add: js_parseInt_def is_js_space_def is_digit_def dec_value_def digit_val_def)
  have o: "option_offset (Some \<lparr> limit = Some 0, cursor = cur \<rparr>) = Some 0"
    using assms p by (auto simp: option_offset_def)
  have n: "length (feed_episodes (sample_feed sample_episodes)) = 3"
    by (simp add: sample_feed_def sample_episodes_def)
  show ?thesis
    by (simp add: podcast_getCollectionItems_stored [OF s] o paginate_def js_plus_def
        js_less_def js_slice_def n z)
qed

lemma page_size_zero_never_ends:
  "cur = None \<or> cur = Some ''0''
   \<Longrightarrow> collectionItems_pages fuel (sample_platform sample_items) sample_stored ''feed.xml''
         (Some 0) cur = None"
proof (induction fuel arbitrary: cur)
  case 0
  then show ?case by simp
next
  case (Suc fuel)
  have "collectionItems_pages fuel (sample_platform sample_items) sample_stored ''feed.xml''
          (Some 0) (Some ''0'') = None"
    by (rule Suc.IH) simp
  then show ?case by (simp add: page_size_zero_page [OF Suc.prems])
qed

text \<open>
  C8, as stated, fails for the page size 0 on the stored feed of the repository's tests:
  the first page is empty and carries the cursor \<open>0\<close>, the page at that cursor is the
  same again, so following the cursors never reaches a final page (here, not within a
  hundred calls), while the single call with \<open>limit = total\<close> returns the three
  episodes.
\<close>

theorem podcast_pages_concatenate_counterexample:
  "podcast_getCollectionItems (sample_platform sample_items) sample_stored ''feed.xml''
     (Some \<lparr> limit = Some 0, cursor = None \<rparr>)
     = (Inr \<lparr> items = [], nextCursor = Some ''0'', total = Some 3 \<rparr>, sample_stored)
   \<and> podcast_getCollectionItems (sample_platform sample_items) sample_stored ''feed.xml''
     (Some \<lparr> limit = Some 0, cursor = Some ''0'' \<rparr>)
     = (Inr \<lparr> items = [], nextCursor = Some ''0'', total = Some 3 \<rparr>, sample_stored)
   \<and> collectionItems_pages 100 (sample_platform sample_items) sample_stored ''feed.xml''
       (Some 0) None = None
   \<and> map_sum id (\<lambda>page. (map item_id (items page), nextCursor page))
        (fst (podcast_getCollectionItems (sample_platform sample_items) sample_stored
                ''feed.xml'' (Some \<lparr> limit = Some 3, cursor = None \<rparr>)))
       = Inr ([''ep-3'', ''ep-2'', ''ep-1''], None)"
proof -
  have s: "map_of (feeds sample_stored) ''feed.xml'' = Some (sample_feed sample_episodes)"
    by (simp add: sample_stored_def)
  have "map_sum id (\<lambda>page. (map item_id (items page), nextCursor page))
        (fst (podcast_getCollectionItems (sample_platform sample_items) sample_stored
                ''feed.xml'' (Some \<lparr> limit = Some 3, cursor = None \<rparr>)))
       = Inr ([''ep-3'', ''ep-2'', ''ep-1''], None)"
    by (simp add: podcast_getCollectionItems_stored [OF s] option_offset_def paginate_def
        js_plus_def js_less_def js_slice_def)
       (simp add: sample_feed_def sample_episodes_def sample_episode_def mapEpisode_def)
  with page_size_zero_page [of None] page_size_zero_page [of "Some ''0''"]
    page_size_zero_never_ends [of None 100]
  show ?thesis by simp
qed

section \<open>A cursor that is not a number\<close>

lemma option_offset_NaN:
  "c \<noteq> [] \<Longrightarrow> js_parseInt c = None
   \<Longrightarrow> option_offset (Some \<lparr> limit = lim, cursor = Some c \<rparr>) = None"
  by (simp add: option_offset_def)

lemma option_offset_empty:
  "option_offset (Some \<lparr> limit = lim, cursor = Some [] \<rparr>)
     = option_offset (Some \<lparr> limit = lim, cursor = None \<rparr>)"
  by (simp add: option_offset_def)

lemma podcast_getCollectionItems_fetched:
  "map_of (feeds st) collectionId = None \<Longrightarrow> fetchAndParseFeed pf st collectionId = Inr fd
   \<Longrightarrow> podcast_getCollectionItems pf st collectionId opts
       = (Inr (paginate (map (\<lambda>ep. mapEpisode ep fd) (feed_episodes fd))
                 (option_offset opts) (option_limit opts 20)),
          st\<lparr>feeds := AList.update collectionId fd (feeds st)\<rparr>)"
  by (simp add: podcast_getCollectionItems_paginate refreshFeed_def)

text \<open>
  C10, as the code has it.  For every non-empty cursor string that \<open>parseInt\<close> maps to
  \<open>NaN\<close>, \<open>getAvailableMedia\<close> returns normally with an empty items list and no
  \<open>nextCursor\<close>, and so does \<open>getCollectionItems\<close> when the feed is stored or its fetch
  and parse succeed: the cursor itself never raises an error.  The empty cursor string is
  treated as no cursor at all and yields the first page.
\<close>

theorem malformed_cursor_empty_page:
  assumes "c \<noteq> []" "js_parseInt c = None"
  shows "podcast_getAvailableMedia st (Some \<lparr> limit = lim, cursor = Some c \<rparr>)
           = \<lparr> items = [], nextCursor = None, total = Some (int (length (feeds st))) \<rparr>
       \<and> (map_of (feeds st) collectionId = Some fd \<longrightarrow>
            podcast_getCollectionItems pf st collectionId (Some \<lparr> limit = lim, cursor = Some c \<rparr>)
              = (Inr \<lparr> items = [], nextCursor = None,
                       total = Some (int (length (feed_episodes fd))) \<rparr>, st))
       \<and> (map_of (feeds st) collectionId = None \<longrightarrow>
            fetchAndParseFeed pf st collectionId = Inr fd \<longrightarrow>
            fst (podcast_getCollectionItems pf st collectionId
                   (Some \<lparr> limit = lim, cursor = Some c \<rparr>))
              = Inr \<lparr> items = [], nextCursor = None,
                      total = Some (int (length (feed_episodes fd))) \<rparr>)
       \<and> podcast_getAvailableMedia st (Some \<lparr> limit = lim, cursor = Some [] \<rparr>)
           = podcast_getAvailableMedia st (Some \<lparr> limit = lim, cursor = None \<rparr>)
       \<and> podcast_getCollectionItems pf st collectionId (Some \<lparr> limit = lim, cursor = Some [] \<rparr>)
           = podcast_getCollectionItems pf st collectionId (Some \<lparr> limit = lim, cursor = None \<rparr>)"
proof (intro conjI impI)
  show "podcast_getAvailableMedia st (Some \<lparr> limit = lim, cursor = Some c \<rparr>)
           = \<lparr> items = [], nextCursor = None, total = Some (int (length (feeds st))) \<rparr>"
    by (simp add: podcast_getAvailableMedia_paginate option_offset_NaN [OF assms] paginate_NaN)
next
  assume "map_of (feeds st) collectionId = Some fd"
  then show "podcast_getCollectionItems pf st collectionId
               (Some \<lparr> limit = lim, cursor = Some c \<rparr>)
              = (Inr \<lparr> items = [], nextCursor = None,
                       total = Some (int (length (feed_episodes fd))) \<rparr>, st)"
    by (simp add: podcast_getCollectionItems_stored option_offset_NaN [OF assms] paginate_NaN)
next
  assume "map_of (feeds st) collectionId = None" "fetchAndParseFeed pf st collectionId = Inr fd"
  then show "fst (podcast_getCollectionItems pf st collectionId
                   (Some \<lparr> limit = lim, cursor = Some c \<rparr>))
              = Inr \<lparr> items = [], nextCursor = None,
                      total = Some (int (length (feed_episodes fd))) \<rparr>"
    by (simp add: podcast_getCollectionItems_fetched option_offset_NaN [OF assms] paginate_NaN)
next
  show "podcast_getAvailableMedia st (Some \<lparr> limit = lim, cursor = Some [] \<rparr>)
           = podcast_getAvailableMedia st (Some \<lparr> limit = lim, cursor = None \<rparr>)"
    by (simp add: podcast_getAvailableMedia_paginate option_offset_empty)
next
  show "podcast_getCollectionItems pf st collectionId (Some \<lparr> limit = lim, cursor = Some [] \<rparr>)
           = podcast_getCollectionItems pf st collectionId (Some \<lparr> limit = lim, cursor = None \<rparr>)"
    unfolding podcast_getCollectionItems_paginate option_offset_empty option_limit_some ..
qed

theorem malformed_cursor_empty_page_witness:
  "''abc'' \<noteq> [] \<and> js_parseInt ''abc'' = None
   \<and> map_of (feeds sample_stored) ''feed.xml'' = Some (sample_feed sample_episodes)
   \<and> podcast_getAvailableMedia sample_stored (Some \<lparr> limit = Some 2, cursor = Some ''abc'' \<rparr>)
       = \<lparr> items = [], nextCursor = None, total = Some 1 \<rparr>
   \<and> podcast_getCollectionItems (sample_platform sample_items) sample_stored ''feed.xml''
        (Some \<lparr> limit = Some 2, cursor = Some ''abc'' \<rparr>)
       = (Inr \<lparr> items = [], nextCursor = None, total = Some 3 \<rparr>, sample_stored)
   \<and> map_of (feeds empty_podcast) ''feed.xml'' = None
   \<and> fetchAndParseFeed (sample_platform sample_items) empty_podcast ''feed.xml''
       = Inr (sample_feed sample_episodes)
   \<and> fst (podcast_getCollectionItems (sample_platform sample_items) empty_podcast ''feed.xml''
        (Some \<lparr> limit = Some 2, cursor = Some ''abc'' \<rparr>))
       = Inr \<lparr> items = [], nextCursor = None, total = Some 3 \<rparr>"
proof -
  have c: "''abc'' \<noteq> []" by simp
  have p: "js_parseInt ''abc'' = None"
    by (simp add: js_parseInt_def is_js_space_def is_digit_def)
  have s: "map_of (feeds sample_stored) ''feed.xml'' = Some (sample_feed sample_episodes)"
    by (simp add: sample_stored_def)
  have e: "map_of (feeds empty_podcast) ''feed.xml'' = None"
    by (simp add: empty_podcast_def)
  have n: "int (length (feed_episodes (sample_feed sample_episodes))) = 3"
    by (simp add: sample_feed_def sample_episodes_def)
  have m: "int (length (feeds sample_stored)) = 1" by (simp add: sample_stored_def)
  note t1 = malformed_cursor_empty_page [OF c p, of sample_stored "Some 2" "''feed.xml''"
      "sample_feed sample_episodes" "sample_platform sample_items"]
  note t2 = malformed_cursor_empty_page [OF c p, of empty_podcast "Some 2" "''feed.xml''"
      "sample_feed sample_episodes" "sample_platform sample_items"]
  from t1 s n m t2 e fetch_sample c p show ?thesis by simp
qed

text \<open>
  C10, as stated, fails for the empty string, which is a cursor that does not parse as a
  decimal integer: the stored test feed then yields the first page, with two items and a
  \<open>nextCursor\<close>.  And with a feed that is not stored and cannot be fetched,
  \<open>getCollectionItems\<close> fails whatever the cursor is.
\<close>

theorem malformed_cursor_empty_page_counterexample:
  "js_parseInt [] = None
   \<and> map_sum id (\<lambda>page. (map item_id (items page), nextCursor page))
        (fst (podcast_getCollectionItems (sample_platform sample_items) sample_stored
                ''feed.xml'' (Some \<lparr> limit = Some 2, cursor = Some [] \<rparr>)))
       = Inr ([''ep-3'', ''ep-2''], Some ''2'')
   \<and> js_parseInt ''abc'' = None
   \<and> fst (podcast_getCollectionItems (sample_platform sample_items) empty_podcast
             ''gone.xml'' (Some \<lparr> limit = Some 2, cursor = Some ''abc'' \<rparr>))
       = Inl NetworkError"
proof -
  have gone: "fst (podcast_getCollectionItems (sample_platform sample_items) empty_podcast
             ''gone.xml'' (Some \<lparr> limit = Some 2, cursor = Some ''abc'' \<rparr>))
       = Inl NetworkError"
    by (simp add: podcast_getCollectionItems_def fetchAndParseFeed_def empty_podcast_def
        sample_platform_def)
  have abc: "js_parseInt ''abc'' = None"
    by (simp add: js_parseInt_def is_js_space_def is_digit_def)
  have s: "map_of (feeds sample_stored) ''feed.xml'' = Some (sample_feed sample_episodes)"
    by (simp add: sample_stored_def)
  have two: "js_String 2 = ''2''" by code_simp
  have "js_parseInt [] = None" by (simp add: js_parseInt_def)
  moreover have "map_sum id (\<lambda>page. (map item_id (items page), nextCursor page))
        (fst (podcast_getCollectionItems (sample_platform sample_items) sample_stored
                ''feed.xml'' (Some \<lparr> limit = Some 2, cursor = Some [] \<rparr>)))
       = Inr ([''ep-3'', ''ep-2''], Some ''2'')"
    by (simp add: podcast_getCollectionItems_stored [OF s] option_offset_def paginate_def
        js_plus_def js_less_def js_slice_def Let_def two)
       (simp add: sample_feed_def sample_episodes_def sample_episode_def mapEpisode_def)
  ultimately show ?thesis using gone abc by blast
qed

end
